theory Spec2Isabelle
  imports Main "HOL-Library.Multiset"
begin

section \<open>Data model (lib/supabase.ts and the schema)\<close>

text \<open>
  Rows are records, tables are lists of rows. A uuid is a natural number handed out by a
  counter of the store (\<open>gen_random_uuid()\<close>), a timestamp is the reading of the store's
  clock (\<open>now()\<close>, \<open>new Date().toISOString()\<close>).
\<close>

type_synonym uuid = nat
type_synonym timestamp = nat

datatype item_status = Available | Used | Pending_borrow | Pending_return | Archived

datatype request_type = Use | Return

datatype history_action =
  Created | Edited | Borrowed | Returned | Archived_action | Rejected
  | Requested_borrow | Requested_return

datatype user_role = Admin | Manager | Employee

datatype user_status = Active | Deactive

record user =
  u_id :: uuid
  username :: string
  role :: user_role
  u_status :: user_status

record item =
  i_id :: uuid
  material :: string
  description :: "string option"
  serial_number :: string
  status :: item_status
  last_used_by :: "uuid option"
  changed_by :: "uuid option"
  archived_reason :: "string option"
  archived_at :: "timestamp option"
  created_at :: timestamp
  updated_at :: timestamp
  pending_request_id :: "uuid option"

record pending_request =
  r_id :: uuid
  item_id :: uuid
  r_type :: request_type
  requested_by :: uuid
  requested_at :: timestamp

record history =
  h_id :: uuid
  h_item_id :: uuid
  action :: history_action
  performed_by :: uuid
  h_timestamp :: timestamp
  details :: "string option"
  previous_status :: "item_status option"
  new_status :: "item_status option"

text \<open>
  A pending request as the service reads it, with its two to-one joins
  (\<open>item:items!pending_requests_item_id_fkey(*)\<close> and
  \<open>requested_by_user:users!pending_requests_requested_by_fkey(...)\<close>); a join that finds
  no row is \<open>None\<close>.
\<close>

record joined_request =
  request :: pending_request
  joined_item :: "item option"
  requested_by_user :: "user option"

text \<open>An item as \<open>getItemById\<close> reads it, with the join \<open>last_used_by_user\<close>.\<close>

record joined_item_row =
  item_row :: item
  last_used_by_user :: "user option"

section \<open>The backing store\<close>

text \<open>
  The store holds the four tables, the uuid counter, the clock, and the outcomes of the
  backend calls still to come: each call to the backend takes the head of \<open>faults\<close>, and
  \<open>True\<close> there means that the call comes back with an error and changes nothing
  (an outage, a refused statement). An exhausted list means no further failure.
  The foreign keys and check constraints of the schema are not modelled: a statement that
  they refuse is a failed call.
\<close>

record world =
  users :: "user list"
  items :: "item list"
  pending_requests :: "pending_request list"
  histories :: "history list"
  next_uuid :: uuid
  clock :: timestamp
  faults :: "bool list"

text \<open>
  The error codes that the services tell apart: PGRST116 (\<open>.single()\<close> found no row, or
  several), 23505 (a unique violation), and any other failure.
\<close>

datatype pg_error = PGRST116 | Code_23505 | Backend_failure

definition backend_call :: "world \<Rightarrow> bool \<times> world" where
  "backend_call w =
     (case faults w of
        [] \<Rightarrow> (False, w)
      | f # fs \<Rightarrow> (f, w\<lparr>faults := fs\<rparr>))"

text \<open>\<open>.single()\<close>: exactly one row, otherwise the error PGRST116.\<close>

definition single :: "'a list \<Rightarrow> pg_error + 'a" where
  "single rows = (case rows of [r] \<Rightarrow> Inr r | _ \<Rightarrow> Inl PGRST116)"

definition join_item :: "world \<Rightarrow> uuid \<Rightarrow> item option" where
  "join_item w i = find (\<lambda>it. i_id it = i) (items w)"

definition join_user :: "world \<Rightarrow> uuid \<Rightarrow> user option" where
  "join_user w u = find (\<lambda>x. u_id x = u) (users w)"

definition with_joins :: "world \<Rightarrow> pending_request \<Rightarrow> joined_request" where
  "with_joins w r =
     \<lparr>request = r, joined_item = join_item w (item_id r),
      requested_by_user = join_user w (requested_by r)\<rparr>"

text \<open>
  \<open>.order('requested_at', { ascending: false })\<close>. SQL leaves the order of rows with
  equal \<open>requested_at\<close> open; the model fixes one.
\<close>

definition order_desc :: "pending_request list \<Rightarrow> pending_request list" where
  "order_desc rows = rev (sort_key requested_at rows)"

section \<open>Errors thrown by the services and reported by the pages\<close>

datatype error =
    Already_pending
  | Return_rejected string
  | Failed_to_create_request
  | Failed_to_fetch_pending_requests_for_item
  | Failed_to_delete_request
  | Request_not_found
  | Item_data_not_found
  | Failed_to_delete_pending_requests
  | Failed_to_fetch_item
  | Serial_number_exists
  | Failed_to_create_item
  | Failed_to_update_item_status
  | Failed_to_create_history_entry
  | User_not_authenticated
  | Only_own_items_returnable
  | Already_pending_for request_type
  | Cannot_perform_action
  | Failed_to_fetch_items
  | Failed_to_fetch_pending_requests

text \<open>\<open>await m\<close> followed by the rest of the function: a thrown error skips the rest.\<close>

definition await :: "(world \<Rightarrow> (error + 'a) \<times> world) \<Rightarrow>
    ('a \<Rightarrow> world \<Rightarrow> (error + 'b) \<times> world) \<Rightarrow> world \<Rightarrow> (error + 'b) \<times> world" where
  "await m k w = (case m w of (Inl e, w') \<Rightarrow> (Inl e, w') | (Inr a, w') \<Rightarrow> k a w')"

text \<open>A template literal prints a missing value as \<open>undefined\<close>.\<close>

definition js_text :: "string option \<Rightarrow> string" where
  "js_text s = (case s of None \<Rightarrow> ''undefined'' | Some t \<Rightarrow> t)"

definition type_text :: "request_type \<Rightarrow> string" where
  "type_text t = (case t of Use \<Rightarrow> ''use'' | Return \<Rightarrow> ''return'')"

section \<open>services/historyService.ts\<close>

record CreateHistoryEntry =
  e_item_id :: uuid
  e_action :: history_action
  e_performed_by :: uuid
  e_details :: "string option"
  e_previous_status :: "item_status option"
  e_new_status :: "item_status option"

text \<open>\<open>entry.details || null\<close>: an empty string is stored as null.\<close>

definition or_null :: "string option \<Rightarrow> string option" where
  "or_null s = (case s of None \<Rightarrow> None | Some t \<Rightarrow> (if t = [] then None else Some t))"

definition createEntry :: "CreateHistoryEntry \<Rightarrow> world \<Rightarrow> (error + history) \<times> world" where
  "createEntry entry w =
     (case backend_call w of
        (True, w1) \<Rightarrow> (Inl Failed_to_create_history_entry, w1)
      | (False, w1) \<Rightarrow>
          (let h = \<lparr>h_id = next_uuid w1, h_item_id = e_item_id entry,
                    action = e_action entry, performed_by = e_performed_by entry,
                    h_timestamp = clock w1, details = or_null (e_details entry),
                    previous_status = e_previous_status entry,
                    new_status = e_new_status entry\<rparr>
           in (Inr h, w1\<lparr>histories := histories w1 @ [h],
                           next_uuid := Suc (next_uuid w1)\<rparr>)))"

section \<open>services/itemService.ts\<close>

record ItemFormData =
  f_material :: string
  f_description :: "string option"
  f_serial_number :: string

definition getItemById :: "uuid \<Rightarrow> world \<Rightarrow> (error + joined_item_row option) \<times> world" where
  "getItemById i w =
     (case backend_call w of
        (True, w1) \<Rightarrow> (Inl Failed_to_fetch_item, w1)
      | (False, w1) \<Rightarrow>
          (case single (filter (\<lambda>it. i_id it = i) (items w1)) of
             Inl e \<Rightarrow> (if e = PGRST116 then (Inr None, w1) else (Inl Failed_to_fetch_item, w1))
           | Inr it \<Rightarrow>
               (Inr (Some \<lparr>item_row = it,
                            last_used_by_user =
                              (case last_used_by it of None \<Rightarrow> None
                               | Some u \<Rightarrow> join_user w1 u)\<rparr>), w1)))"

text \<open>
  \<open>createItem\<close>: the insert fails with code 23505 when the serial number is taken
  (the column is UNIQUE).
\<close>

definition createItem :: "ItemFormData \<Rightarrow> uuid \<Rightarrow> world \<Rightarrow> (error + item) \<times> world" where
  "createItem itemData changedBy w =
     (case backend_call w of
        (True, w1) \<Rightarrow> (Inl Failed_to_create_item, w1)
      | (False, w1) \<Rightarrow>
          (if f_serial_number itemData \<in> serial_number ` set (items w1)
           then (Inl Serial_number_exists, w1)
           else
             (let it = \<lparr>i_id = next_uuid w1, material = f_material itemData,
                        description = or_null (f_description itemData),
                        serial_number = f_serial_number itemData, status = Available,
                        last_used_by = None, changed_by = Some changedBy,
                        archived_reason = None, archived_at = None,
                        created_at = clock w1, updated_at = clock w1,
                        pending_request_id = None\<rparr>
              in (Inr it, w1\<lparr>items := items w1 @ [it],
                              next_uuid := Suc (next_uuid w1)\<rparr>))))"

text \<open>
  \<open>additionalData\<close> of \<open>updateItemStatus\<close>: each field is absent (\<open>None\<close>), null
  (\<open>Some None\<close>) or a value. An absent \<open>additionalData\<close> is the record with both absent.
\<close>

record additional_data =
  a_last_used_by :: "uuid option option"
  a_archived_reason :: "string option option"

text \<open>\<open>updateData\<close>: the columns the update writes; an absent column keeps its value.\<close>

record update_data =
  d_status :: item_status
  d_changed_by :: uuid
  d_updated_at :: timestamp
  d_last_used_by :: "uuid option option"
  d_archived_at :: "timestamp option option"
  d_archived_reason :: "string option option"

definition truthy :: "string option option \<Rightarrow> bool" where
  "truthy v = (case v of Some (Some t) \<Rightarrow> t \<noteq> [] | _ \<Rightarrow> False)"

definition build_update_data ::
    "item_status \<Rightarrow> uuid \<Rightarrow> additional_data \<Rightarrow> timestamp \<Rightarrow> update_data" where
  "build_update_data st changedBy additionalData now =
     (let d0 = \<lparr>d_status = st, d_changed_by = changedBy, d_updated_at = now,
                 d_last_used_by = None, d_archived_at = None, d_archived_reason = None\<rparr>;
          d1 = (if a_last_used_by additionalData \<noteq> None
                then d0\<lparr>d_last_used_by := a_last_used_by additionalData\<rparr> else d0);
          d2 = (if st = Archived
                then (let d = d1\<lparr>d_archived_at := Some (Some now)\<rparr>
                      in if truthy (a_archived_reason additionalData)
                         then d\<lparr>d_archived_reason := a_archived_reason additionalData\<rparr>
                         else d)
                else if st = Available \<and> a_archived_reason additionalData = Some None
                then d1\<lparr>d_archived_at := Some None, d_archived_reason := Some None\<rparr>
                else d1);
          d3 = (if a_archived_reason additionalData \<noteq> None
                then d2\<lparr>d_archived_reason := a_archived_reason additionalData\<rparr> else d2)
      in d3)"

definition apply_update :: "update_data \<Rightarrow> item \<Rightarrow> item" where
  "apply_update d it =
     it\<lparr>status := d_status d, changed_by := Some (d_changed_by d),
        updated_at := d_updated_at d,
        last_used_by := (case d_last_used_by d of None \<Rightarrow> last_used_by it | Some v \<Rightarrow> v),
        archived_at := (case d_archived_at d of None \<Rightarrow> archived_at it | Some v \<Rightarrow> v),
        archived_reason :=
          (case d_archived_reason d of None \<Rightarrow> archived_reason it | Some v \<Rightarrow> v)\<rparr>"

text \<open>
  \<open>.update(updateData).eq('id', id).select().single()\<close>: the rows with this id are
  rewritten; unless exactly one row comes back the request is an error and nothing is
  written.
\<close>

definition updateItemStatus ::
    "uuid \<Rightarrow> item_status \<Rightarrow> uuid \<Rightarrow> additional_data \<Rightarrow> world \<Rightarrow> (error + item) \<times> world" where
  "updateItemStatus i st changedBy additionalData w =
     (case backend_call w of
        (True, w1) \<Rightarrow> (Inl Failed_to_update_item_status, w1)
      | (False, w1) \<Rightarrow>
          (let updateData = build_update_data st changedBy additionalData (clock w1)
           in case single (map (apply_update updateData)
                            (filter (\<lambda>it. i_id it = i) (items w1))) of
                Inl e \<Rightarrow> (Inl Failed_to_update_item_status, w1)
              | Inr row \<Rightarrow>
                  (Inr row,
                   w1\<lparr>items := map (\<lambda>it. if i_id it = i then apply_update updateData it
                                          else it) (items w1)\<rparr>)))"

record validation =
  valid :: bool
  message :: "string option"

definition validateReturnRequest :: "uuid \<Rightarrow> uuid \<Rightarrow> world \<Rightarrow> (error + validation) \<times> world" where
  "validateReturnRequest itemId userId =
     await (getItemById itemId) (\<lambda>found w.
       case found of
         None \<Rightarrow> (Inr \<lparr>valid = False, message = Some ''Item not found''\<rparr>, w)
       | Some row \<Rightarrow>
           (if status (item_row row) \<noteq> Used
            then (Inr \<lparr>valid = False, message = Some ''Item is not currently in use''\<rparr>, w)
            else if last_used_by (item_row row) \<noteq> Some userId
            then (Inr \<lparr>valid = False,
                       message = Some (''Only '' @
                         (case last_used_by_user row of
                            None \<Rightarrow> ''the borrower''
                          | Some u \<Rightarrow> (if username u = [] then ''the borrower'' else username u))
                         @ '' can return this item'')\<rparr>, w)
            else (Inr \<lparr>valid = True, message = None\<rparr>, w)))"

text \<open>
  \<open>hasUserPendingRequest\<close>: a backend error other than PGRST116 is logged and answered
  with \<open>false\<close>; PGRST116 (no row, or several) leaves \<open>data\<close> null.
\<close>

definition hasUserPendingRequest ::
    "uuid \<Rightarrow> uuid \<Rightarrow> request_type \<Rightarrow> world \<Rightarrow> bool \<times> world" where
  "hasUserPendingRequest itemId userId actionType w =
     (case backend_call w of
        (True, w1) \<Rightarrow> (False, w1)
      | (False, w1) \<Rightarrow>
          (case single (filter (\<lambda>r. item_id r = itemId \<and> requested_by r = userId
                                    \<and> r_type r = actionType) (pending_requests w1)) of
             Inl e \<Rightarrow> (False, w1)
           | Inr r \<Rightarrow> (True, w1)))"

section \<open>services/pendingRequestService.ts\<close>

record CreateRequestParams =
  p_item_id :: uuid
  p_requested_by :: uuid
  p_action_type :: request_type

definition insert_request :: "CreateRequestParams \<Rightarrow> world \<Rightarrow> (error + pending_request) \<times> world" where
  "insert_request params w =
     (case backend_call w of
        (True, w1) \<Rightarrow> (Inl Failed_to_create_request, w1)
      | (False, w1) \<Rightarrow>
          (let r = \<lparr>r_id = next_uuid w1, item_id = p_item_id params,
                    r_type = p_action_type params, requested_by = p_requested_by params,
                    requested_at = clock w1\<rparr>
           in (Inr r, w1\<lparr>pending_requests := pending_requests w1 @ [r],
                           next_uuid := Suc (next_uuid w1)\<rparr>)))"

definition createRequest :: "CreateRequestParams \<Rightarrow> world \<Rightarrow> (error + pending_request) \<times> world" where
  "createRequest params w =
     (case hasUserPendingRequest (p_item_id params) (p_requested_by params)
             (p_action_type params) w of
        (hasPendingRequest, w1) \<Rightarrow>
          if hasPendingRequest then (Inl Already_pending, w1)
          else if p_action_type params = Return
          then await (validateReturnRequest (p_item_id params) (p_requested_by params))
                 (\<lambda>validation w2.
                    if \<not> valid validation
                    then (Inl (Return_rejected
                                (case message validation of
                                   None \<Rightarrow> ''Cannot create return request''
                                 | Some m \<Rightarrow> (if m = [] then ''Cannot create return request''
                                              else m))), w2)
                    else insert_request params w2) w1
          else insert_request params w1)"

definition getPendingRequestsForItem ::
    "uuid \<Rightarrow> world \<Rightarrow> (error + joined_request list) \<times> world" where
  "getPendingRequestsForItem itemId w =
     (case backend_call w of
        (True, w1) \<Rightarrow> (Inl Failed_to_fetch_pending_requests_for_item, w1)
      | (False, w1) \<Rightarrow>
          (Inr (map (with_joins w1)
                  (order_desc (filter (\<lambda>r. item_id r = itemId) (pending_requests w1)))), w1))"

definition deleteRequest :: "uuid \<Rightarrow> world \<Rightarrow> (error + unit) \<times> world" where
  "deleteRequest i w =
     (case backend_call w of
        (True, w1) \<Rightarrow> (Inl Failed_to_delete_request, w1)
      | (False, w1) \<Rightarrow>
          (Inr (), w1\<lparr>pending_requests := filter (\<lambda>r. r_id r \<noteq> i) (pending_requests w1)\<rparr>))"

text \<open>
  The first read of \<open>approveRequest\<close> and \<open>rejectRequest\<close>: the request with its joins,
  \<open>.eq('id', requestId).single()\<close>; any error, or no data, is "Request not found".
\<close>

definition fetch_request :: "uuid \<Rightarrow> world \<Rightarrow> (error + joined_request) \<times> world" where
  "fetch_request requestId w =
     (case backend_call w of
        (True, w1) \<Rightarrow> (Inl Request_not_found, w1)
      | (False, w1) \<Rightarrow>
          (case single (filter (\<lambda>r. r_id r = requestId) (pending_requests w1)) of
             Inl e \<Rightarrow> (Inl Request_not_found, w1)
           | Inr r \<Rightarrow> (Inr (with_joins w1 r), w1)))"

definition approved_entry :: "joined_request \<Rightarrow> item \<Rightarrow> uuid \<Rightarrow> item_status \<Rightarrow> CreateHistoryEntry" where
  "approved_entry req it approvedBy newStatus =
     \<lparr>e_item_id = i_id it,
      e_action = (if r_type (request req) = Use then Borrowed else Returned),
      e_performed_by = approvedBy,
      e_details = Some (''Request approved - '' @
         (if r_type (request req) = Use then ''Item borrowed'' else ''Item returned'') @
         '' by '' @ js_text (map_option username (requested_by_user req))),
      e_previous_status = Some (status it),
      e_new_status = Some newStatus\<rparr>"

text \<open>
  The details of an automatic rejection, from the template
  \<open>Request automatically rejected - ${loser}'s ${actionDescription} request was denied
  because ${winner}'s ${request.type} request was approved\<close>.
\<close>

definition rejection_text :: "string \<Rightarrow> request_type \<Rightarrow> string \<Rightarrow> request_type \<Rightarrow> string" where
  "rejection_text loser loser_type winner winner_type =
     (let actionDescription = (if loser_type = Use then ''borrow'' else ''return'')
      in ''Request automatically rejected - '' @ loser @ [CHR 0x27] @ ''s '' @
         actionDescription @ '' request was denied because '' @
         winner @ [CHR 0x27] @ ''s '' @ type_text winner_type @ '' request was approved'')"

definition auto_rejected_entry ::
    "joined_request \<Rightarrow> item \<Rightarrow> uuid \<Rightarrow> item_status \<Rightarrow> joined_request \<Rightarrow> user \<Rightarrow> CreateHistoryEntry" where
  "auto_rejected_entry req it approvedBy newStatus otherRequest other_user =
     \<lparr>e_item_id = i_id it,
      e_action = Rejected,
      e_performed_by = approvedBy,
      e_details = Some (rejection_text (username other_user) (r_type (request otherRequest))
                          (js_text (map_option username (requested_by_user req)))
                          (r_type (request req))),
      e_previous_status = Some (status it),
      e_new_status = Some newStatus\<rparr>"

text \<open>The loop over \<open>otherRequests\<close>: one awaited \<open>createEntry\<close> per request whose user is joined.\<close>

fun reject_others ::
    "joined_request \<Rightarrow> item \<Rightarrow> uuid \<Rightarrow> item_status \<Rightarrow> joined_request list \<Rightarrow> world
       \<Rightarrow> (error + unit) \<times> world" where
  "reject_others req it approvedBy newStatus [] w = (Inr (), w)"
| "reject_others req it approvedBy newStatus (otherRequest # rest) w =
     (case requested_by_user otherRequest of
        None \<Rightarrow> reject_others req it approvedBy newStatus rest w
      | Some other_user \<Rightarrow>
          (case createEntry (auto_rejected_entry req it approvedBy newStatus otherRequest other_user) w of
             (Inl e, w') \<Rightarrow> (Inl e, w')
           | (Inr h, w') \<Rightarrow> reject_others req it approvedBy newStatus rest w'))"

definition delete_requests_of_item :: "uuid \<Rightarrow> world \<Rightarrow> (error + unit) \<times> world" where
  "delete_requests_of_item itemId w =
     (case backend_call w of
        (True, w1) \<Rightarrow> (Inl Failed_to_delete_pending_requests, w1)
      | (False, w1) \<Rightarrow>
          (Inr (), w1\<lparr>pending_requests :=
                         filter (\<lambda>r. item_id r \<noteq> itemId) (pending_requests w1)\<rparr>))"

definition approveRequest :: "uuid \<Rightarrow> uuid \<Rightarrow> world \<Rightarrow> (error + unit) \<times> world" where
  "approveRequest requestId approvedBy =
     await (fetch_request requestId) (\<lambda>req.
       case joined_item req of
         None \<Rightarrow> (\<lambda>w. (Inl Item_data_not_found, w))
       | Some it \<Rightarrow>
           await (getPendingRequestsForItem (item_id (request req))) (\<lambda>allPendingRequests.
             let otherRequests = filter (\<lambda>r. r_id (request r) \<noteq> requestId) allPendingRequests;
                 newStatus = (if r_type (request req) = Use then Used else Available);
                 additionalData =
                   (if r_type (request req) = Use
                    then \<lparr>a_last_used_by = Some (Some (requested_by (request req))),
                          a_archived_reason = None\<rparr>
                    else \<lparr>a_last_used_by = Some None, a_archived_reason = None\<rparr>)
             in await (updateItemStatus (i_id it) newStatus approvedBy additionalData) (\<lambda>updated.
                  await (createEntry (approved_entry req it approvedBy newStatus)) (\<lambda>h.
                    await (reject_others req it approvedBy newStatus otherRequests) (\<lambda>u.
                      delete_requests_of_item (item_id (request req)))))))"

definition manually_rejected_entry :: "joined_request \<Rightarrow> item \<Rightarrow> uuid \<Rightarrow> CreateHistoryEntry" where
  "manually_rejected_entry req it rejectedBy =
     \<lparr>e_item_id = i_id it,
      e_action = Rejected,
      e_performed_by = rejectedBy,
      e_details = Some (''Request manually rejected - '' @
         js_text (map_option username (requested_by_user req)) @ [CHR 0x27] @ ''s '' @
         type_text (r_type (request req)) @ '' request was denied by admin''),
      e_previous_status = Some (status it),
      e_new_status = Some (status it)\<rparr>"

definition rejectRequest :: "uuid \<Rightarrow> uuid \<Rightarrow> world \<Rightarrow> (error + unit) \<times> world" where
  "rejectRequest requestId rejectedBy =
     await (fetch_request requestId) (\<lambda>req.
       case joined_item req of
         None \<Rightarrow> (\<lambda>w. (Inl Item_data_not_found, w))
       | Some it \<Rightarrow>
           await (createEntry (manually_rejected_entry req it rejectedBy)) (\<lambda>h.
             deleteRequest requestId))"

section \<open>pages/ItemList.tsx\<close>

text \<open>
  The page keeps a copy of the tables (\<open>items\<close>, \<open>pendingRequests\<close>), the set
  \<open>requesting\<close> and the selected item; the handlers below take them as arguments, with
  \<open>localStorage.getItem('userId')\<close> and the role of the session. A handler's result is
  \<open>Inl e\<close> when it ends with \<open>setError\<close>.

  \<open>loadData\<close> reads both tables again (two backend calls, started together) and
  reports a failed read itself; when both fail the model reports the first.
\<close>

definition loadData :: "world \<Rightarrow> (error + unit) \<times> world" where
  "loadData w =
     (case backend_call w of
        (f1, w1) \<Rightarrow>
          (case backend_call w1 of
             (f2, w2) \<Rightarrow>
               (if f1 then (Inl Failed_to_fetch_items, w2)
                else if f2 then (Inl Failed_to_fetch_pending_requests, w2)
                else (Inr (), w2))))"

definition page_hasUserPendingRequest ::
    "pending_request list \<Rightarrow> uuid option \<Rightarrow> uuid \<Rightarrow> request_type \<Rightarrow> bool" where
  "page_hasUserPendingRequest pendingRequests currentUserId itemId actionType =
     (case currentUserId of
        None \<Rightarrow> False
      | Some uid \<Rightarrow>
          list_ex (\<lambda>r. item_id r = itemId \<and> requested_by r = uid \<and> r_type r = actionType)
            pendingRequests)"

definition handleBorrowReturn ::
    "pending_request list \<Rightarrow> uuid set \<Rightarrow> uuid option \<Rightarrow> item \<Rightarrow> world
       \<Rightarrow> (error + unit) \<times> world" where
  "handleBorrowReturn pendingRequests requesting currentUserId it w =
     (case currentUserId of
        None \<Rightarrow> (Inl User_not_authenticated, w)
      | Some uid \<Rightarrow>
          if status it = Used \<and> last_used_by it \<noteq> Some uid
          then (Inl Only_own_items_returnable, w)
          else if i_id it \<in> requesting then (Inr (), w)
          else
            (let actionType = (if status it = Available then Use else Return)
             in if page_hasUserPendingRequest pendingRequests currentUserId (i_id it) actionType
                then (Inl (Already_pending_for actionType), w)
                else
                  (case (if status it = Available then Some Requested_borrow
                         else if status it = Used then Some Requested_return
                         else None) of
                     None \<Rightarrow> (Inl Cannot_perform_action, w)
                   | Some historyAction \<Rightarrow>
                       await (createRequest \<lparr>p_item_id = i_id it, p_requested_by = uid,
                                             p_action_type = actionType\<rparr>) (\<lambda>created.
                         await (createEntry
                                  \<lparr>e_item_id = i_id it, e_action = historyAction,
                                   e_performed_by = uid,
                                   e_details = Some ((if historyAction = Requested_borrow
                                                      then ''Requested to borrow''
                                                      else ''Requested to return'') @ '' item''),
                                   e_previous_status = Some (status it),
                                   e_new_status = Some (status it)\<rparr>) (\<lambda>h.
                           loadData)) w)))"

definition canUserActOnItem :: "pending_request list \<Rightarrow> uuid option \<Rightarrow> item \<Rightarrow> bool" where
  "canUserActOnItem pendingRequests currentUserId it =
     (if status it = Available
      then \<not> page_hasUserPendingRequest pendingRequests currentUserId (i_id it) Use
      else if status it = Used
      then last_used_by it = currentUserId
           \<and> \<not> page_hasUserPendingRequest pendingRequests currentUserId (i_id it) Return
      else False)"

definition confirmArchive :: "item option \<Rightarrow> uuid option \<Rightarrow> string \<Rightarrow> world \<Rightarrow> (error + unit) \<times> world" where
  "confirmArchive selectedItem userId reason w =
     (case selectedItem of
        None \<Rightarrow> (Inr (), w)
      | Some sel \<Rightarrow>
          (case userId of
             None \<Rightarrow> (Inl User_not_authenticated, w)
           | Some uid \<Rightarrow>
               await (updateItemStatus (i_id sel) Archived uid
                        \<lparr>a_last_used_by = None, a_archived_reason = Some (Some reason)\<rparr>)
                 (\<lambda>updated.
                   await (createEntry
                            \<lparr>e_item_id = i_id sel, e_action = Archived_action,
                             e_performed_by = uid,
                             e_details = Some (''Item archived: '' @ reason),
                             e_previous_status = Some (status sel),
                             e_new_status = Some Archived\<rparr>) (\<lambda>h.
                     loadData)) w))"

definition confirmUnarchive :: "item option \<Rightarrow> uuid option \<Rightarrow> string \<Rightarrow> world \<Rightarrow> (error + unit) \<times> world" where
  "confirmUnarchive selectedItem userId reason w =
     (case selectedItem of
        None \<Rightarrow> (Inr (), w)
      | Some sel \<Rightarrow>
          (case userId of
             None \<Rightarrow> (Inl User_not_authenticated, w)
           | Some uid \<Rightarrow>
               await (updateItemStatus (i_id sel) Available uid
                        \<lparr>a_last_used_by = Some None, a_archived_reason = Some None\<rparr>)
                 (\<lambda>updated.
                   await (createEntry
                            \<lparr>e_item_id = i_id sel, e_action = Edited,
                             e_performed_by = uid,
                             e_details = Some (''Item restored from archive: '' @ reason),
                             e_previous_status = Some Archived,
                             e_new_status = Some Available\<rparr>) (\<lambda>h.
                     loadData)) w))"

text \<open>
  The action column of a row. For an admin the page renders Restore when
  \<open>item.status === 'archived'\<close> and otherwise Archive only under
  \<open>item.status !== 'used'\<close>; a manager gets no action; anyone else gets the
  borrow/return button under \<open>item.status !== 'archived'\<close>, whose click runs the handler
  under \<open>canUserActOnItem(item) && !isRequesting\<close>. The item detail modal renders the
  same two admin buttons under the same conditions.
\<close>

definition archive_offered :: "user_role option \<Rightarrow> item \<Rightarrow> bool" where
  "archive_offered userRole it =
     (userRole = Some Admin \<and> status it \<noteq> Archived \<and> status it \<noteq> Used)"

definition restore_offered :: "user_role option \<Rightarrow> item \<Rightarrow> bool" where
  "restore_offered userRole it = (userRole = Some Admin \<and> status it = Archived)"

text \<open>
  \<open>reason.trim()\<close> is empty when the reason holds white space only (of the characters
  a string of the model can hold: tab, line feed, vertical tab, form feed, carriage
  return, space and no-break space).
\<close>

definition blank :: "string \<Rightarrow> bool" where
  "blank reason =
     list_all (\<lambda>c. c \<in> {CHR 0x09, CHR 0x0A, CHR 0x0B, CHR 0x0C, CHR 0x0D, CHR 0x20, CHR 0xA0})
       reason"

text \<open>
  Clicking through: \<open>handleArchive(item)\<close> selects the row's item and opens the modal
  (components/ArchiveModal.tsx), whose \<open>handleSubmit\<close> calls \<open>onConfirm(reason)\<close>,
  that is \<open>confirmArchive(reason)\<close>, only under \<open>!isLoading && reason.trim()\<close>; no
  archiving is in flight when the modal is submitted. Without the button, or with a blank
  reason, nothing happens.
\<close>

definition archive_click ::
    "user_role option \<Rightarrow> uuid option \<Rightarrow> item \<Rightarrow> string \<Rightarrow> world \<Rightarrow> (error + unit) \<times> world" where
  "archive_click userRole userId it reason w =
     (if archive_offered userRole it \<and> \<not> blank reason
      then confirmArchive (Some it) userId reason w
      else (Inr (), w))"

text \<open>
  \<open>handleUnarchive(item)\<close> selects the item and opens the restore modal, whose
  confirmation runs \<open>confirmUnarchive(reason)\<close>.
\<close>

definition restore_click ::
    "user_role option \<Rightarrow> uuid option \<Rightarrow> item \<Rightarrow> string \<Rightarrow> world \<Rightarrow> (error + unit) \<times> world" where
  "restore_click userRole userId it reason w =
     (if restore_offered userRole it then confirmUnarchive (Some it) userId reason w
      else (Inr (), w))"

section \<open>pages/AddItem.tsx\<close>

definition onSubmit :: "uuid option \<Rightarrow> ItemFormData \<Rightarrow> world \<Rightarrow> (error + unit) \<times> world" where
  "onSubmit userId data w =
     (case userId of
        None \<Rightarrow> (Inl User_not_authenticated, w)
      | Some uid \<Rightarrow>
          await (createItem data uid) (\<lambda>newItem.
            await (createEntry
                     \<lparr>e_item_id = i_id newItem, e_action = Created, e_performed_by = uid,
                      e_details = Some ''Item created in system'',
                      e_previous_status = None, e_new_status = Some Available\<rparr>) (\<lambda>h w'.
              (Inr (), w'))) w)"

section \<open>Reading the ledger\<close>

text \<open>A history row stores an entry as \<open>createEntry\<close> was given it.\<close>

definition stores :: "history \<Rightarrow> CreateHistoryEntry \<Rightarrow> bool" where
  "stores h e =
     (h_item_id h = e_item_id e \<and> action h = e_action e \<and> performed_by h = e_performed_by e
      \<and> details h = or_null (e_details e) \<and> previous_status h = e_previous_status e
      \<and> new_status h = e_new_status e)"

section \<open>Example stores\<close>

definition admin :: user where
  "admin = \<lparr>u_id = 1, username = ''admin'', role = Admin, u_status = Active\<rparr>"

definition budi :: user where
  "budi = \<lparr>u_id = 2, username = ''budi'', role = Employee, u_status = Active\<rparr>"

definition citra :: user where
  "citra = \<lparr>u_id = 3, username = ''citra'', role = Employee, u_status = Active\<rparr>"

definition drill :: item where
  "drill = \<lparr>i_id = 10, material = ''drill'', description = None, serial_number = ''SN-1'',
            status = Available, last_used_by = None, changed_by = Some 1,
            archived_reason = None, archived_at = None, created_at = 1, updated_at = 1,
            pending_request_id = None\<rparr>"

text \<open>Scenario B of the specification: two employees ask for the same available item.\<close>

definition two_requests :: world where
  "two_requests =
     \<lparr>users = [admin, budi, citra], items = [drill],
      pending_requests =
        [\<lparr>r_id = 20, item_id = 10, r_type = Use, requested_by = 2, requested_at = 5\<rparr>,
         \<lparr>r_id = 21, item_id = 10, r_type = Use, requested_by = 3, requested_at = 6\<rparr>],
      histories = [], next_uuid = 30, clock = 7, faults = []\<rparr>"

text \<open>The item in use by budi, who has asked to return it.\<close>

definition borrowed_drill :: world where
  "borrowed_drill =
     \<lparr>users = [admin, budi, citra],
      items = [drill\<lparr>status := Used, last_used_by := Some 2\<rparr>],
      pending_requests =
        [\<lparr>r_id = 22, item_id = 10, r_type = Return, requested_by = 2, requested_at = 8\<rparr>],
      histories = [], next_uuid = 30, clock = 9, faults = []\<rparr>"

text \<open>The item available and nobody asking for it.\<close>

definition one_drill :: world where
  "one_drill =
     \<lparr>users = [admin, budi, citra], items = [drill], pending_requests = [],
      histories = [], next_uuid = 30, clock = 7, faults = []\<rparr>"

text \<open>The item archived.\<close>

definition archived_drill :: world where
  "archived_drill =
     \<lparr>users = [admin, budi, citra],
      items = [drill\<lparr>status := Archived, archived_reason := Some ''broken'',
                      archived_at := Some 3\<rparr>],
      pending_requests = [], histories = [], next_uuid = 30, clock = 7, faults = []\<rparr>"

text \<open>
  The item returned but budi's return request still queued: the tables that the approval
  of request 22 in \<open>borrowed_drill\<close> leaves behind when its last backend call, the
  deletion of the requests, fails.
\<close>

definition returned_still_queued :: world where
  "returned_still_queued =
     \<lparr>users = [admin, budi, citra],
      items = [drill\<lparr>status := Available, last_used_by := None, updated_at := 9\<rparr>],
      pending_requests =
        [\<lparr>r_id = 22, item_id = 10, r_type = Return, requested_by = 2, requested_at = 8\<rparr>],
      histories =
        [\<lparr>h_id = 30, h_item_id = 10, action = Returned, performed_by = 1, h_timestamp = 9,
          details = Some ''Request approved - Item returned by budi'',
          previous_status = Some Used, new_status = Some Available\<rparr>],
      next_uuid = 31, clock = 9, faults = []\<rparr>"

section \<open>Sequences of operations\<close>

text \<open>
  The operations of the warehouse as the pages and the services run them. A page works on
  the tables as it has just loaded them: the item it acts on is the stored row with the
  given id, its list of pending requests is the stored one, and no request is in flight.
  Nothing happens when the page lists no such item.
\<close>

datatype operation =
    Create_item "uuid option" ItemFormData
  | Submit_request CreateRequestParams
  | Borrow_or_return "uuid option" uuid
  | Approve uuid uuid
  | Reject uuid uuid
  | Archive "user_role option" "uuid option" uuid string
  | Restore "user_role option" "uuid option" uuid string

definition listed_item :: "world \<Rightarrow> uuid \<Rightarrow> item option" where
  "listed_item w i = find (\<lambda>it. i_id it = i) (items w)"

fun step :: "operation \<Rightarrow> world \<Rightarrow> world" where
  "step (Create_item userId data) w = snd (onSubmit userId data w)"
| "step (Submit_request params) w = snd (createRequest params w)"
| "step (Borrow_or_return currentUserId i) w =
     (case listed_item w i of
        None \<Rightarrow> w
      | Some it \<Rightarrow> snd (handleBorrowReturn (pending_requests w) {} currentUserId it w))"
| "step (Approve requestId approvedBy) w = snd (approveRequest requestId approvedBy w)"
| "step (Reject requestId rejectedBy) w = snd (rejectRequest requestId rejectedBy w)"
| "step (Archive userRole userId i reason) w =
     (case listed_item w i of
        None \<Rightarrow> w
      | Some it \<Rightarrow> snd (archive_click userRole userId it reason w))"
| "step (Restore userRole userId i reason) w =
     (case listed_item w i of
        None \<Rightarrow> w
      | Some it \<Rightarrow> snd (restore_click userRole userId it reason w))"

fun run :: "operation list \<Rightarrow> world \<Rightarrow> world" where
  "run [] w = w"
| "run (operation # rest) w = run rest (step operation w)"

text \<open>Every item is in use exactly when it has a borrower.\<close>

definition used_iff_borrower :: "world \<Rightarrow> bool" where
  "used_iff_borrower w =
     list_all (\<lambda>it. (status it = Used) = (last_used_by it \<noteq> None)) (items w)"





text \<open>A store with the three users and nothing else.\<close>

definition empty_store :: world where
  "empty_store =
     \<lparr>users = [admin, budi, citra], items = [], pending_requests = [], histories = [],
      next_uuid = 10, clock = 1, faults = []\<rparr>"

text \<open>
  Scenario A of the specification, from the empty store: the admin creates the drill
  (item 10), budi asks for it (request 12) and the admin approves.
\<close>

definition drill_form :: ItemFormData where
  "drill_form = \<lparr>f_material = ''drill'', f_description = None, f_serial_number = ''SN-1''\<rparr>"

definition drill_in_use :: world where
  "drill_in_use =
     run [Create_item (Some 1) drill_form, Borrow_or_return (Some 2) 10, Approve 12 1]
       empty_store"

section \<open>Properties\<close>

lemmas example_defs = admin_def budi_def citra_def drill_def two_requests_def borrowed_drill_def
  one_drill_def archived_drill_def returned_still_queued_def empty_store_def drill_form_def
  drill_in_use_def listed_item_def

lemmas page_defs = loadData_def page_hasUserPendingRequest_def handleBorrowReturn_def
  canUserActOnItem_def confirmArchive_def confirmUnarchive_def archive_offered_def
  restore_offered_def blank_def archive_click_def restore_click_def onSubmit_def

lemmas service_defs = approveRequest_def rejectRequest_def await_def fetch_request_def
  backend_call_def single_def with_joins_def join_item_def join_user_def
  getPendingRequestsForItem_def order_desc_def updateItemStatus_def build_update_data_def
  apply_update_def createEntry_def or_null_def approved_entry_def auto_rejected_entry_def rejection_text_def
  manually_rejected_entry_def delete_requests_of_item_def deleteRequest_def js_text_def
  type_text_def truthy_def createRequest_def insert_request_def hasUserPendingRequest_def
  validateReturnRequest_def getItemById_def createItem_def Let_def

subsection \<open>What each backend call leaves alone\<close>

lemma backend_call_frame:
  "backend_call w = (f, w1) \<Longrightarrow>
     users w1 = users w \<and> items w1 = items w \<and> pending_requests w1 = pending_requests w
     \<and> histories w1 = histories w \<and> next_uuid w1 = next_uuid w \<and> clock w1 = clock w"
  by (auto simp: backend_call_def split: list.splits)

lemma createEntry_frame:
  "createEntry e w = (res, w') \<Longrightarrow>
     users w' = users w \<and> items w' = items w \<and> pending_requests w' = pending_requests w"
  by (auto simp: createEntry_def Let_def split: prod.splits bool.splits dest: backend_call_frame)

lemma createEntry_fail:
  "createEntry e w = (Inl x, w') \<Longrightarrow> histories w' = histories w"
  by (auto simp: createEntry_def Let_def split: prod.splits bool.splits dest: backend_call_frame)

lemma updateItemStatus_frame:
  "updateItemStatus i st by ad w = (res, w') \<Longrightarrow>
     users w' = users w \<and> pending_requests w' = pending_requests w \<and> histories w' = histories w"
  by (auto simp: updateItemStatus_def Let_def split: prod.splits bool.splits sum.splits dest: backend_call_frame)

lemma reject_others_frame:
  "reject_others req it by ns others w = (res, w') \<Longrightarrow>
     users w' = users w \<and> items w' = items w \<and> pending_requests w' = pending_requests w"
proof (induction others arbitrary: w)
  case Nil
  then show ?case by simp
next
  case (Cons a others)
  then show ?case
    by (fastforce split: option.splits prod.splits sum.splits dest: createEntry_frame)
qed

lemma fetch_request_frame:
  "fetch_request rid w = (res, w') \<Longrightarrow>
     users w' = users w \<and> items w' = items w \<and> pending_requests w' = pending_requests w
     \<and> histories w' = histories w"
  by (auto simp: fetch_request_def split: prod.splits bool.splits sum.splits dest: backend_call_frame)

lemma getPendingRequestsForItem_frame:
  "getPendingRequestsForItem i w = (res, w') \<Longrightarrow>
     users w' = users w \<and> items w' = items w \<and> pending_requests w' = pending_requests w
     \<and> histories w' = histories w"
  by (auto simp: getPendingRequestsForItem_def split: prod.splits bool.splits dest: backend_call_frame)

lemma delete_requests_of_item_ok:
  "delete_requests_of_item i w = (Inr u, w') \<Longrightarrow>
     pending_requests w' = filter (\<lambda>r. item_id r \<noteq> i) (pending_requests w)
     \<and> items w' = items w \<and> histories w' = histories w \<and> users w' = users w"
  by (auto simp: delete_requests_of_item_def split: prod.splits bool.splits dest: backend_call_frame)

lemma delete_requests_of_item_frame:
  "delete_requests_of_item i w = (res, w') \<Longrightarrow>
     users w' = users w \<and> items w' = items w \<and> histories w' = histories w"
  by (auto simp: delete_requests_of_item_def split: prod.splits bool.splits dest: backend_call_frame)

lemma deleteRequest_frame:
  "deleteRequest i w = (res, w') \<Longrightarrow>
     users w' = users w \<and> items w' = items w \<and> histories w' = histories w"
  by (auto simp: deleteRequest_def split: prod.splits bool.splits dest: backend_call_frame)

lemma single_Inr: "single xs = Inr x \<longleftrightarrow> xs = [x]"
  by (auto simp: single_def split: list.splits)

lemma fetch_request_ok:
  "fetch_request rid w = (Inr req, w') \<Longrightarrow>
     filter (\<lambda>r. r_id r = rid) (pending_requests w) = [request req]
     \<and> joined_item req = join_item w (item_id (request req))
     \<and> requested_by_user req = join_user w (requested_by (request req))"
  by (auto simp: fetch_request_def single_Inr with_joins_def join_item_def join_user_def
      split: prod.splits bool.splits sum.splits dest!: backend_call_frame)

text \<open>The steps of a successful approval, one after the other.\<close>

lemma approveRequest_ok:
  assumes "approveRequest requestId approvedBy w = (Inr u, w')"
  obtains req it w1 allp w2 upd w3 h w4 w5 where
    "fetch_request requestId w = (Inr req, w1)"
    "joined_item req = Some it"
    "getPendingRequestsForItem (item_id (request req)) w1 = (Inr allp, w2)"
    "updateItemStatus (i_id it) (if r_type (request req) = Use then Used else Available) approvedBy
        (if r_type (request req) = Use
         then \<lparr>a_last_used_by = Some (Some (requested_by (request req))), a_archived_reason = None\<rparr>
         else \<lparr>a_last_used_by = Some None, a_archived_reason = None\<rparr>) w2 = (Inr upd, w3)"
    "createEntry (approved_entry req it approvedBy (if r_type (request req) = Use then Used else Available)) w3 = (Inr h, w4)"
    "reject_others req it approvedBy (if r_type (request req) = Use then Used else Available)
        (filter (\<lambda>r. r_id (request r) \<noteq> requestId) allp) w4 = (Inr (), w5)"
    "delete_requests_of_item (item_id (request req)) w5 = (Inr (), w')"
  using assms
  unfolding approveRequest_def await_def Let_def
  by (auto split: prod.splits sum.splits option.splits)


lemma updateItemStatus_ok:
  "updateItemStatus i st by ad w = (Inr upd, w') \<Longrightarrow>
     (\<exists>old. filter (\<lambda>it. i_id it = i) (items w) = [old]
        \<and> upd = apply_update (build_update_data st by ad (clock w)) old)
     \<and> items w' = map (\<lambda>it. if i_id it = i then apply_update (build_update_data st by ad (clock w)) it else it) (items w)"
  by (auto simp: updateItemStatus_def Let_def single_Inr map_eq_Cons_conv split: prod.splits bool.splits sum.splits dest!: backend_call_frame)

lemma filter_singleton_mem: "filter P xs = [x] \<Longrightarrow> x \<in> set xs \<and> P x"
proof -
  assume a: "filter P xs = [x]"
  have "x \<in> set (filter P xs)" unfolding a by simp
  then show ?thesis by simp
qed

lemma apply_update_id [simp]: "i_id (apply_update d it) = i_id it"
  by (simp add: apply_update_def)

lemma find_Some_id: "find (\<lambda>it. i_id it = i) xs = Some it \<Longrightarrow> i_id it = i \<and> it \<in> set xs"
  by (auto simp: find_Some_iff)



subsection \<open>The history written by an approval\<close>

lemma createEntry_ok:
  "createEntry e w = (Inr h, w') \<Longrightarrow> histories w' = histories w @ [h] \<and> stores h e"
  by (auto simp: createEntry_def stores_def Let_def split: prod.splits bool.splits dest!: backend_call_frame)

lemma reject_others_ok:
  "reject_others req it by ns others w = (Inr u, w') \<Longrightarrow>
     \<exists>new. histories w' = histories w @ new
       \<and> list_all2 (\<lambda>h other. \<exists>usr. requested_by_user other = Some usr
                      \<and> stores h (auto_rejected_entry req it by ns other usr))
            new (filter (\<lambda>other. requested_by_user other \<noteq> None) others)"
proof (induction others arbitrary: w)
  case Nil
  then show ?case by simp
next
  case (Cons other rest)
  show ?case
  proof (cases "requested_by_user other")
    case None
    with Cons.prems have "reject_others req it by ns rest w = (Inr u, w')" by simp
    from Cons.IH[OF this] None show ?thesis by simp
  next
    case (Some usr)
    with Cons.prems obtain h w1 where
      c: "createEntry (auto_rejected_entry req it by ns other usr) w = (Inr h, w1)" and
      r: "reject_others req it by ns rest w1 = (Inr u, w')"
      by (auto split: prod.splits sum.splits)
    from Cons.IH[OF r] obtain new where
      n: "histories w' = histories w1 @ new"
         "list_all2 (\<lambda>h other. \<exists>usr. requested_by_user other = Some usr
                      \<and> stores h (auto_rejected_entry req it by ns other usr))
            new (filter (\<lambda>other. requested_by_user other \<noteq> None) rest)"
      by blast
    from createEntry_ok[OF c] n Some
    have "histories w' = histories w @ (h # new)
       \<and> list_all2 (\<lambda>h other. \<exists>usr. requested_by_user other = Some usr
                      \<and> stores h (auto_rejected_entry req it by ns other usr))
            (h # new) (filter (\<lambda>other. requested_by_user other \<noteq> None) (other # rest))"
      by simp
    then show ?thesis by blast
  qed
qed

lemma getPendingRequestsForItem_ok:
  "getPendingRequestsForItem i w = (Inr allp, w') \<Longrightarrow>
     allp = map (with_joins w) (order_desc (filter (\<lambda>r. item_id r = i) (pending_requests w)))"
  by (auto simp: getPendingRequestsForItem_def with_joins_def join_item_def join_user_def
      split: prod.splits bool.splits dest!: backend_call_frame)

lemma with_joins_cong:
  "users w1 = users w \<Longrightarrow> items w1 = items w \<Longrightarrow> with_joins w1 = with_joins w"
  by (auto simp: with_joins_def join_item_def join_user_def fun_eq_iff)

lemma mset_map_filter_order_desc:
  "mset (map f (filter P (order_desc xs))) = mset (map f (filter P xs))"
  by (simp add: order_desc_def)

lemma list_all2_map_eq:
  "list_all2 (\<lambda>x y. f x = g y) xs ys \<Longrightarrow> map f xs = map g ys"
  by (induction rule: list_all2_induct) simp_all

lemma list_all2_left:
  "list_all2 P xs ys \<Longrightarrow> x \<in> set xs \<Longrightarrow> \<exists>y \<in> set ys. P x y"
  by (induction rule: list_all2_induct) auto

lemma auto_rejected_details:
  "requested_by_user other = Some usr \<Longrightarrow>
   or_null (e_details (auto_rejected_entry req it by ns other usr)) =
     Some (rejection_text (js_text (map_option username (requested_by_user other)))
             (r_type (request other))
             (js_text (map_option username (requested_by_user req))) (r_type (request req)))"
  by (simp add: auto_rejected_entry_def or_null_def rejection_text_def js_text_def Let_def)


subsection \<open>Approval\<close>

text \<open>
  Claim C2. Whenever \<open>approveRequest\<close> succeeds, no pending request for the approved
  request's item is left: the winner and every competing request, of either type, are gone.
\<close>

theorem approve_clears_queue:
  assumes "approveRequest requestId approvedBy w = (Inr (), w')"
  shows "\<exists>req \<in> set (pending_requests w). r_id req = requestId
           \<and> (\<forall>r \<in> set (pending_requests w'). item_id r \<noteq> item_id req)"
proof -
  from assms obtain req it w1 allp w2 upd w3 h w4 w5 where
    f: "fetch_request requestId w = (Inr req, w1)" and
    g: "getPendingRequestsForItem (item_id (request req)) w1 = (Inr allp, w2)" and
    u: "updateItemStatus (i_id it) (if r_type (request req) = Use then Used else Available) approvedBy
        (if r_type (request req) = Use
         then \<lparr>a_last_used_by = Some (Some (requested_by (request req))), a_archived_reason = None\<rparr>
         else \<lparr>a_last_used_by = Some None, a_archived_reason = None\<rparr>) w2 = (Inr upd, w3)" and
    c: "createEntry (approved_entry req it approvedBy (if r_type (request req) = Use then Used else Available)) w3 = (Inr h, w4)" and
    r: "reject_others req it approvedBy (if r_type (request req) = Use then Used else Available)
        (filter (\<lambda>r. r_id (request r) \<noteq> requestId) allp) w4 = (Inr (), w5)" and
    d: "delete_requests_of_item (item_id (request req)) w5 = (Inr (), w')"
    by (rule approveRequest_ok)
  note fo = fetch_request_ok[OF f]
  from fo have mem: "request req \<in> set (pending_requests w)" "r_id (request req) = requestId"
    using filter_singleton_mem[of "\<lambda>r. r_id r = requestId" "pending_requests w" "request req"]
    by simp_all
  have "pending_requests w5 = pending_requests w"
    by (simp add: fetch_request_frame[OF f] getPendingRequestsForItem_frame[OF g]
        updateItemStatus_frame[OF u] createEntry_frame[OF c] reject_others_frame[OF r])
  with delete_requests_of_item_ok[OF d]
  have "pending_requests w' = filter (\<lambda>r. item_id r \<noteq> item_id (request req)) (pending_requests w)"
    by simp
  with mem show ?thesis by auto
qed


text \<open>
  Claim C3. Whenever \<open>approveRequest\<close> succeeds, the item of the approved request is
  stored with status used and \<open>last_used_by\<close> the requester for a use request, and with
  status available and \<open>last_used_by\<close> null for a return request.
\<close>

theorem approve_sets_status:
  assumes "approveRequest requestId approvedBy w = (Inr (), w')"
  shows "\<exists>req \<in> set (pending_requests w). r_id req = requestId
           \<and> (\<exists>it \<in> set (items w'). i_id it = item_id req)
           \<and> (\<forall>it \<in> set (items w'). i_id it = item_id req \<longrightarrow>
                 (case r_type req of
                    Use \<Rightarrow> status it = Used \<and> last_used_by it = Some (requested_by req)
                  | Return \<Rightarrow> status it = Available \<and> last_used_by it = None))"
proof -
  from assms obtain req it w1 allp w2 upd w3 h w4 w5 where
    f: "fetch_request requestId w = (Inr req, w1)" and
    j: "joined_item req = Some it" and
    g: "getPendingRequestsForItem (item_id (request req)) w1 = (Inr allp, w2)" and
    u: "updateItemStatus (i_id it) (if r_type (request req) = Use then Used else Available) approvedBy
        (if r_type (request req) = Use
         then \<lparr>a_last_used_by = Some (Some (requested_by (request req))), a_archived_reason = None\<rparr>
         else \<lparr>a_last_used_by = Some None, a_archived_reason = None\<rparr>) w2 = (Inr upd, w3)" and
    c: "createEntry (approved_entry req it approvedBy (if r_type (request req) = Use then Used else Available)) w3 = (Inr h, w4)" and
    r: "reject_others req it approvedBy (if r_type (request req) = Use then Used else Available)
        (filter (\<lambda>r. r_id (request r) \<noteq> requestId) allp) w4 = (Inr (), w5)" and
    d: "delete_requests_of_item (item_id (request req)) w5 = (Inr (), w')"
    by (rule approveRequest_ok)
  let ?rq = "request req"
  note fo = fetch_request_ok[OF f]
  from fo have mem: "?rq \<in> set (pending_requests w)" "r_id ?rq = requestId"
    using filter_singleton_mem[of "\<lambda>r. r_id r = requestId" "pending_requests w" "?rq"]
    by simp_all
  from fo have "joined_item req = join_item w (item_id ?rq)"
    by simp
  with j have "find (\<lambda>x. i_id x = item_id ?rq) (items w) = Some it"
    by (simp add: join_item_def)
  then have iid: "i_id it = item_id ?rq"
    using find_Some_id by fastforce
  let ?d = "build_update_data (if r_type ?rq = Use then Used else Available) approvedBy
        (if r_type ?rq = Use
         then \<lparr>a_last_used_by = Some (Some (requested_by ?rq)), a_archived_reason = None\<rparr>
         else \<lparr>a_last_used_by = Some None, a_archived_reason = None\<rparr>) (clock w2)"
  from updateItemStatus_ok[OF u] obtain old where
    old: "filter (\<lambda>x. i_id x = i_id it) (items w2) = [old]" and
    its: "items w3 = map (\<lambda>x. if i_id x = i_id it then apply_update ?d x else x) (items w2)"
    by blast
  have "items w' = items w3"
    by (simp add: createEntry_frame[OF c] reject_others_frame[OF r] delete_requests_of_item_ok[OF d])
  with its have its': "items w' = map (\<lambda>x. if i_id x = i_id it then apply_update ?d x else x) (items w2)"
    by simp
  from filter_singleton_mem[OF old] have o: "old \<in> set (items w2)" "i_id old = i_id it"
    by simp_all
  have "apply_update ?d old \<in> set (items w')"
    unfolding its' using o by force
  moreover have "i_id (apply_update ?d old) = item_id ?rq"
    using o iid by simp
  ultimately have ex: "\<exists>x \<in> set (items w'). i_id x = item_id ?rq"
    by blast
  have st: "status (apply_update ?d x) = (if r_type ?rq = Use then Used else Available)" for x
    by (simp add: apply_update_def build_update_data_def Let_def)
  have lu: "last_used_by (apply_update ?d x) = (if r_type ?rq = Use then Some (requested_by ?rq) else None)" for x
    by (simp add: apply_update_def build_update_data_def Let_def)
  have all: "\<forall>x \<in> set (items w'). i_id x = item_id ?rq \<longrightarrow>
                 (case r_type ?rq of
                    Use \<Rightarrow> status x = Used \<and> last_used_by x = Some (requested_by ?rq)
                  | Return \<Rightarrow> status x = Available \<and> last_used_by x = None)"
  proof (intro ballI impI)
    fix x assume x: "x \<in> set (items w')" "i_id x = item_id ?rq"
    then obtain y where y: "y \<in> set (items w2)" "x = (if i_id y = i_id it then apply_update ?d y else y)"
      unfolding its' by auto
    with x iid have "x = apply_update ?d y"
      by (cases "i_id y = i_id it") auto
    then show "case r_type ?rq of
                    Use \<Rightarrow> status x = Used \<and> last_used_by x = Some (requested_by ?rq)
                  | Return \<Rightarrow> status x = Available \<and> last_used_by x = None"
      using st[of y] lu[of y] by (cases "r_type ?rq") simp_all
  qed
  from mem ex all show ?thesis by blast
qed

theorem approve_clears_queue_witness:
  "fst (approveRequest 20 1 two_requests) = Inr ()
   \<and> (\<exists>req \<in> set (pending_requests two_requests). r_id req = 20
        \<and> (\<forall>r \<in> set (pending_requests (snd (approveRequest 20 1 two_requests))).
              item_id r \<noteq> item_id req))"
proof -
  have e: "fst (approveRequest 20 1 two_requests) = Inr ()"
    by (simp add: service_defs example_defs)
  then have h: "approveRequest 20 1 two_requests = (Inr (), snd (approveRequest 20 1 two_requests))"
    by (simp add: prod_eq_iff)
  from approve_clears_queue[OF h] e show ?thesis by simp
qed

theorem approve_sets_status_witness:
  "fst (approveRequest 22 1 borrowed_drill) = Inr ()
   \<and> (\<exists>req \<in> set (pending_requests borrowed_drill). r_id req = 22
        \<and> (\<exists>it \<in> set (items (snd (approveRequest 22 1 borrowed_drill))). i_id it = item_id req)
        \<and> (\<forall>it \<in> set (items (snd (approveRequest 22 1 borrowed_drill))).
              i_id it = item_id req \<longrightarrow>
                (case r_type req of
                   Use \<Rightarrow> status it = Used \<and> last_used_by it = Some (requested_by req)
                 | Return \<Rightarrow> status it = Available \<and> last_used_by it = None)))"
proof -
  have e: "fst (approveRequest 22 1 borrowed_drill) = Inr ()"
    by (simp add: service_defs example_defs)
  then have h: "approveRequest 22 1 borrowed_drill = (Inr (), snd (approveRequest 22 1 borrowed_drill))"
    by (simp add: prod_eq_iff)
  from approve_sets_status[OF h] e show ?thesis by simp
qed

text \<open>
  Claim C1. \<open>approveRequest\<close> is meant to be atomic (the code opens its sequence with the
  comment "Start a transaction-like operation"), but nothing undoes the steps already
  done when a later one fails. In scenario B, with the backend failing on the fourth call
  (the history entry of the winner), the approval ends with an error while the item is
  stored as used by budi, no history entry exists, and both requests are still pending.
\<close>

theorem approve_not_atomic:
  "fst (approveRequest 20 1 (two_requests\<lparr>faults := [False, False, False, True]\<rparr>))
     = Inl Failed_to_create_history_entry
   \<and> map status (items (snd (approveRequest 20 1
         (two_requests\<lparr>faults := [False, False, False, True]\<rparr>)))) = [Used]
   \<and> map last_used_by (items (snd (approveRequest 20 1
         (two_requests\<lparr>faults := [False, False, False, True]\<rparr>)))) = [Some 2]
   \<and> histories (snd (approveRequest 20 1
         (two_requests\<lparr>faults := [False, False, False, True]\<rparr>))) = []
   \<and> map r_id (pending_requests (snd (approveRequest 20 1
         (two_requests\<lparr>faults := [False, False, False, True]\<rparr>)))) = [20, 21]
   \<and> map status (items two_requests) = [Available]"
  by (simp add: service_defs example_defs)

text \<open>
  Claim C4, as the code has it. Whenever \<open>approveRequest\<close> succeeds, the ledger grows by
  the winner's entry followed by the rejections; there is exactly one rejection for every
  other pending request on the same item whose requester has a user row (the loop skips
  a request without one), each with action rejected, with \<open>previous_status\<close> the status
  the item had before the approval and \<open>new_status\<close> the status decided for the winner,
  and with details naming the loser and the winner.
\<close>

theorem approve_rejects_others:
  assumes "approveRequest requestId approvedBy w = (Inr (), w')"
  shows "\<exists>req \<in> set (pending_requests w). \<exists>it \<in> set (items w). \<exists>winner rejected.
           r_id req = requestId \<and> join_item w (item_id req) = Some it
         \<and> histories w' = histories w @ winner # rejected
         \<and> action winner \<noteq> Rejected
         \<and> (\<forall>h \<in> set rejected.
               action h = Rejected \<and> h_item_id h = item_id req \<and> performed_by h = approvedBy
               \<and> previous_status h = Some (status it)
               \<and> new_status h = Some (if r_type req = Use then Used else Available))
         \<and> mset (map details rejected) =
             mset (map (\<lambda>r. Some (rejection_text
                                 (js_text (map_option username (join_user w (requested_by r))))
                                 (r_type r)
                                 (js_text (map_option username (join_user w (requested_by req))))
                                 (r_type req)))
                    (filter (\<lambda>r. item_id r = item_id req \<and> r_id r \<noteq> requestId
                                  \<and> join_user w (requested_by r) \<noteq> None)
                       (pending_requests w)))"
proof -
  from assms obtain req it w1 allp w2 upd w3 h w4 w5 where
    f: "fetch_request requestId w = (Inr req, w1)" and
    j: "joined_item req = Some it" and
    g: "getPendingRequestsForItem (item_id (request req)) w1 = (Inr allp, w2)" and
    u: "updateItemStatus (i_id it) (if r_type (request req) = Use then Used else Available) approvedBy
        (if r_type (request req) = Use
         then \<lparr>a_last_used_by = Some (Some (requested_by (request req))), a_archived_reason = None\<rparr>
         else \<lparr>a_last_used_by = Some None, a_archived_reason = None\<rparr>) w2 = (Inr upd, w3)" and
    c: "createEntry (approved_entry req it approvedBy (if r_type (request req) = Use then Used else Available)) w3 = (Inr h, w4)" and
    r: "reject_others req it approvedBy (if r_type (request req) = Use then Used else Available)
        (filter (\<lambda>r. r_id (request r) \<noteq> requestId) allp) w4 = (Inr (), w5)" and
    d: "delete_requests_of_item (item_id (request req)) w5 = (Inr (), w')"
    by (rule approveRequest_ok)
  let ?rq = "request req"
  let ?ns = "if r_type ?rq = Use then Used else Available"
  note fo = fetch_request_ok[OF f]
  from fo have mem: "?rq \<in> set (pending_requests w)" "r_id ?rq = requestId"
    using filter_singleton_mem[of "\<lambda>r. r_id r = requestId" "pending_requests w" "?rq"]
    by simp_all
  from fo have ji: "joined_item req = join_item w (item_id ?rq)"
    and ju: "requested_by_user req = join_user w (requested_by ?rq)"
    by simp_all
  from ji j have jit: "join_item w (item_id ?rq) = Some it" by simp
  then have it_mem: "it \<in> set (items w)" and iid: "i_id it = item_id ?rq"
    using find_Some_id[of "item_id ?rq" "items w" it] by (simp_all add: join_item_def)
  have w1: "users w1 = users w" "items w1 = items w" "pending_requests w1 = pending_requests w"
    "histories w1 = histories w"
    by (simp_all add: fetch_request_frame[OF f])
  have h3: "histories w3 = histories w"
    by (simp add: w1 getPendingRequestsForItem_frame[OF g] updateItemStatus_frame[OF u])
  from createEntry_ok[OF c] have h4: "histories w4 = histories w @ [h]"
    and sh: "stores h (approved_entry req it approvedBy ?ns)"
    by (simp_all add: h3)
  from sh have aw: "action h \<noteq> Rejected"
    by (simp add: stores_def approved_entry_def)
  let ?others = "filter (\<lambda>other. requested_by_user other \<noteq> None)
                   (filter (\<lambda>r. r_id (request r) \<noteq> requestId) allp)"
  from reject_others_ok[OF r] obtain new where
    h5: "histories w5 = histories w4 @ new" and
    la: "list_all2 (\<lambda>h other. \<exists>usr. requested_by_user other = Some usr
                      \<and> stores h (auto_rejected_entry req it approvedBy ?ns other usr))
            new ?others"
    by blast
  have hw': "histories w' = histories w @ h # new"
    by (simp add: delete_requests_of_item_ok[OF d] h5 h4)
  have fields: "\<forall>x \<in> set new.
               action x = Rejected \<and> h_item_id x = item_id ?rq \<and> performed_by x = approvedBy
               \<and> previous_status x = Some (status it)
               \<and> new_status x = Some ?ns"
  proof
    fix x assume "x \<in> set new"
    from list_all2_left[OF la this] obtain other usr where
      "stores x (auto_rejected_entry req it approvedBy ?ns other usr)" by blast
    then show "action x = Rejected \<and> h_item_id x = item_id ?rq \<and> performed_by x = approvedBy
               \<and> previous_status x = Some (status it) \<and> new_status x = Some ?ns"
      by (simp add: stores_def auto_rejected_entry_def iid)
  qed
  let ?text = "\<lambda>other. Some (rejection_text (js_text (map_option username (requested_by_user other)))
             (r_type (request other))
             (js_text (map_option username (requested_by_user req))) (r_type ?rq))"
  have "list_all2 (\<lambda>x other. details x = ?text other) new ?others"
    using la
    by (rule list_all2_mono) (auto simp: stores_def auto_rejected_details)
  then have md: "map details new = map ?text ?others"
    by (rule list_all2_map_eq)
  have allp: "allp = map (with_joins w) (order_desc (filter (\<lambda>r. item_id r = item_id ?rq) (pending_requests w)))"
    using getPendingRequestsForItem_ok[OF g] with_joins_cong[OF w1(1) w1(2)] w1(3) by simp
  let ?P = "\<lambda>r. join_user w (requested_by r) \<noteq> None \<and> r_id r \<noteq> requestId"
  have others: "?others = map (with_joins w) (filter ?P
                   (order_desc (filter (\<lambda>r. item_id r = item_id ?rq) (pending_requests w))))"
    unfolding allp by (simp add: filter_map comp_def with_joins_def conj_commute)
  let ?t = "\<lambda>r. Some (rejection_text
                                 (js_text (map_option username (join_user w (requested_by r))))
                                 (r_type r)
                                 (js_text (map_option username (join_user w (requested_by ?rq))))
                                 (r_type ?rq))"
  have "map ?text ?others = map ?t (filter ?P
                   (order_desc (filter (\<lambda>r. item_id r = item_id ?rq) (pending_requests w))))"
    unfolding others by (simp add: comp_def with_joins_def ju)
  with md have "map details new = map ?t (filter ?P
                   (order_desc (filter (\<lambda>r. item_id r = item_id ?rq) (pending_requests w))))"
    by (rule trans)
  then have "mset (map details new) = mset (map ?t (filter ?P
                   (order_desc (filter (\<lambda>r. item_id r = item_id ?rq) (pending_requests w)))))"
    by (simp only:)
  also have "\<dots> = mset (map ?t (filter ?P
                   (filter (\<lambda>r. item_id r = item_id ?rq) (pending_requests w))))"
    by (rule mset_map_filter_order_desc)
  also have "filter ?P (filter (\<lambda>r. item_id r = item_id ?rq) (pending_requests w))
      = filter (\<lambda>r. item_id r = item_id ?rq \<and> r_id r \<noteq> requestId
                                  \<and> join_user w (requested_by r) \<noteq> None) (pending_requests w)"
    by (simp add: conj_commute conj_left_commute)
  finally have ms: "mset (map details new) = mset (map ?t
       (filter (\<lambda>r. item_id r = item_id ?rq \<and> r_id r \<noteq> requestId
                                  \<and> join_user w (requested_by r) \<noteq> None) (pending_requests w)))" .
  from mem it_mem jit hw' aw fields ms show ?thesis
    by blast
qed

theorem approve_rejects_others_witness:
  "fst (approveRequest 20 1 two_requests) = Inr ()
   \<and> (\<exists>req \<in> set (pending_requests two_requests). \<exists>it \<in> set (items two_requests).
        \<exists>winner rejected.
           r_id req = 20 \<and> join_item two_requests (item_id req) = Some it
         \<and> histories (snd (approveRequest 20 1 two_requests))
              = histories two_requests @ winner # rejected
         \<and> action winner \<noteq> Rejected
         \<and> (\<forall>h \<in> set rejected.
               action h = Rejected \<and> h_item_id h = item_id req \<and> performed_by h = 1
               \<and> previous_status h = Some (status it)
               \<and> new_status h = Some (if r_type req = Use then Used else Available))
         \<and> mset (map details rejected) =
             mset (map (\<lambda>r. Some (rejection_text
                                 (js_text (map_option username
                                             (join_user two_requests (requested_by r))))
                                 (r_type r)
                                 (js_text (map_option username
                                             (join_user two_requests (requested_by req))))
                                 (r_type req)))
                    (filter (\<lambda>r. item_id r = item_id req \<and> r_id r \<noteq> 20
                                  \<and> join_user two_requests (requested_by r) \<noteq> None)
                       (pending_requests two_requests))))"
proof -
  have e: "fst (approveRequest 20 1 two_requests) = Inr ()"
    by (simp add: service_defs example_defs)
  then have h: "approveRequest 20 1 two_requests = (Inr (), snd (approveRequest 20 1 two_requests))"
    by (simp add: prod_eq_iff)
  from approve_rejects_others[OF h] e show ?thesis by (simp only: simp_thms)
qed

text \<open>
  Claim C4 as stated fails: in scenario B the rejection written for citra's request has
  \<open>previous_status\<close> available, the status before the approval, not used.
\<close>

theorem rejected_entry_previous_status_counterexample:
  "fst (approveRequest 20 1 two_requests) = Inr ()
   \<and> map action (histories (snd (approveRequest 20 1 two_requests))) = [Borrowed, Rejected]
   \<and> map previous_status (histories (snd (approveRequest 20 1 two_requests)))
        = [Some Available, Some Available]
   \<and> map new_status (histories (snd (approveRequest 20 1 two_requests)))
        = [Some Used, Some Used]"
  by (simp add: service_defs example_defs)

subsection \<open>Archive and restore\<close>

lemma loadData_frame:
  "loadData w = (res, w') \<Longrightarrow>
     users w' = users w \<and> items w' = items w \<and> pending_requests w' = pending_requests w
     \<and> histories w' = histories w"
  by (auto simp: loadData_def split: prod.splits if_splits dest!: backend_call_frame)

lemma updateItemStatus_clock:
  "updateItemStatus i st by ad w = (Inr upd, w') \<Longrightarrow>
     (\<exists>x \<in> set (items w'). i_id x = i)
     \<and> (\<forall>x \<in> set (items w'). i_id x = i \<longrightarrow>
           (\<exists>old \<in> set (items w). i_id old = i
              \<and> x = apply_update (build_update_data st by ad (clock w)) old))"
proof -
  assume u: "updateItemStatus i st by ad w = (Inr upd, w')"
  let ?d = "build_update_data st by ad (clock w)"
  from updateItemStatus_ok[OF u] obtain old where
    old: "filter (\<lambda>it. i_id it = i) (items w) = [old]" and
    its: "items w' = map (\<lambda>it. if i_id it = i then apply_update ?d it else it) (items w)"
    by blast
  from filter_singleton_mem[OF old] have o: "old \<in> set (items w)" "i_id old = i" by simp_all
  then have "apply_update ?d old \<in> set (items w')" unfolding its by force
  then have ex: "\<exists>x \<in> set (items w'). i_id x = i" using o by (intro bexI[of _ "apply_update ?d old"]) simp_all
  have "\<forall>x \<in> set (items w'). i_id x = i \<longrightarrow>
           (\<exists>old \<in> set (items w). i_id old = i \<and> x = apply_update ?d old)"
    unfolding its by auto
  with ex show ?thesis by blast
qed

lemma confirmArchive_ok:
  assumes "confirmArchive (Some sel) userId reason w = (Inr u, w')"
  obtains uid upd w1 h w2 where
    "userId = Some uid"
    "updateItemStatus (i_id sel) Archived uid
        \<lparr>a_last_used_by = None, a_archived_reason = Some (Some reason)\<rparr> w = (Inr upd, w1)"
    "items w' = items w1"
  using assms unfolding confirmArchive_def await_def
  by (auto split: option.splits prod.splits sum.splits dest!: createEntry_frame loadData_frame)

lemma confirmUnarchive_ok:
  assumes "confirmUnarchive (Some sel) userId reason w = (Inr u, w')"
  obtains uid upd w1 h w2 where
    "userId = Some uid"
    "updateItemStatus (i_id sel) Available uid
        \<lparr>a_last_used_by = Some None, a_archived_reason = Some None\<rparr> w = (Inr upd, w1)"
    "items w' = items w1"
  using assms unfolding confirmUnarchive_def await_def
  by (auto split: option.splits prod.splits sum.splits dest!: createEntry_frame loadData_frame)

lemma archive_update_fields:
  "status (apply_update (build_update_data Archived uid
        \<lparr>a_last_used_by = None, a_archived_reason = Some (Some reason)\<rparr> now) old) = Archived"
  "archived_at (apply_update (build_update_data Archived uid
        \<lparr>a_last_used_by = None, a_archived_reason = Some (Some reason)\<rparr> now) old) = Some now"
  "archived_reason (apply_update (build_update_data Archived uid
        \<lparr>a_last_used_by = None, a_archived_reason = Some (Some reason)\<rparr> now) old) = Some reason"
  "last_used_by (apply_update (build_update_data Archived uid
        \<lparr>a_last_used_by = None, a_archived_reason = Some (Some reason)\<rparr> now) old) = last_used_by old"
  by (simp_all add: apply_update_def build_update_data_def Let_def)

lemma restore_update_fields:
  "status (apply_update (build_update_data Available uid
        \<lparr>a_last_used_by = Some None, a_archived_reason = Some None\<rparr> now) old) = Available"
  "archived_at (apply_update (build_update_data Available uid
        \<lparr>a_last_used_by = Some None, a_archived_reason = Some None\<rparr> now) old) = None"
  "archived_reason (apply_update (build_update_data Available uid
        \<lparr>a_last_used_by = Some None, a_archived_reason = Some None\<rparr> now) old) = None"
  "last_used_by (apply_update (build_update_data Available uid
        \<lparr>a_last_used_by = Some None, a_archived_reason = Some None\<rparr> now) old) = None"
  by (simp_all add: apply_update_def build_update_data_def Let_def)

text \<open>
  Claim C10. When \<open>confirmArchive\<close> and then \<open>confirmUnarchive\<close> of the same item both
  complete, the item was stored as archived (with the reason and the time) in between and
  ends with status available, \<open>last_used_by\<close> null, \<open>archived_reason\<close> null and
  \<open>archived_at\<close> null.
\<close>

theorem archive_restore_round_trip:
  assumes "confirmArchive (Some sel) userId reason w = (Inr (), w1)"
      and "confirmUnarchive (Some sel') userId' reason' w1 = (Inr (), w2)"
      and "i_id sel' = i_id sel"
  shows "(\<exists>it \<in> set (items w1). i_id it = i_id sel)
       \<and> (\<forall>it \<in> set (items w1). i_id it = i_id sel \<longrightarrow>
             status it = Archived \<and> archived_at it = Some (clock w)
             \<and> archived_reason it = Some reason)
       \<and> (\<exists>it \<in> set (items w2). i_id it = i_id sel)
       \<and> (\<forall>it \<in> set (items w2). i_id it = i_id sel \<longrightarrow>
             status it = Available \<and> last_used_by it = None
             \<and> archived_reason it = None \<and> archived_at it = None)"
proof -
  from assms(1) obtain uid upd wa where
    a: "updateItemStatus (i_id sel) Archived uid
        \<lparr>a_last_used_by = None, a_archived_reason = Some (Some reason)\<rparr> w = (Inr upd, wa)"
    and ia: "items w1 = items wa"
    by (rule confirmArchive_ok)
  from assms(2,3) obtain uid' upd' wb where
    b: "updateItemStatus (i_id sel) Available uid'
        \<lparr>a_last_used_by = Some None, a_archived_reason = Some None\<rparr> w1 = (Inr upd', wb)"
    and ib: "items w2 = items wb"
    by (auto elim: confirmUnarchive_ok)
  from updateItemStatus_clock[OF a] ia
  have 1: "\<exists>it \<in> set (items w1). i_id it = i_id sel"
    and 2: "\<forall>it \<in> set (items w1). i_id it = i_id sel \<longrightarrow>
             status it = Archived \<and> archived_at it = Some (clock w)
             \<and> archived_reason it = Some reason"
    by (auto simp: archive_update_fields)
  from updateItemStatus_clock[OF b] ib
  have 3: "\<exists>it \<in> set (items w2). i_id it = i_id sel"
    and 4: "\<forall>it \<in> set (items w2). i_id it = i_id sel \<longrightarrow>
             status it = Available \<and> last_used_by it = None
             \<and> archived_reason it = None \<and> archived_at it = None"
    by (auto simp: restore_update_fields)
  from 1 2 3 4 show ?thesis by blast
qed

theorem archive_restore_round_trip_witness:
  "fst (confirmArchive (Some drill) (Some 1) ''broken'' one_drill) = Inr ()
   \<and> fst (confirmUnarchive (Some drill) (Some 1) ''repaired''
            (snd (confirmArchive (Some drill) (Some 1) ''broken'' one_drill))) = Inr ()
   \<and> (\<exists>it \<in> set (items (snd (confirmArchive (Some drill) (Some 1) ''broken'' one_drill))).
         i_id it = i_id drill \<and> status it = Archived
         \<and> archived_at it = Some (clock one_drill) \<and> archived_reason it = Some ''broken'')
   \<and> (\<exists>it \<in> set (items (snd (confirmUnarchive (Some drill) (Some 1) ''repaired''
            (snd (confirmArchive (Some drill) (Some 1) ''broken'' one_drill))))).
         i_id it = i_id drill \<and> status it = Available \<and> last_used_by it = None
         \<and> archived_reason it = None \<and> archived_at it = None)"
proof -
  let ?w1 = "snd (confirmArchive (Some drill) (Some 1) ''broken'' one_drill)"
  let ?w2 = "snd (confirmUnarchive (Some drill) (Some 1) ''repaired'' ?w1)"
  have e1: "fst (confirmArchive (Some drill) (Some 1) ''broken'' one_drill) = Inr ()"
    by (simp add: page_defs service_defs example_defs)
  have e2: "fst (confirmUnarchive (Some drill) (Some 1) ''repaired'' ?w1) = Inr ()"
    by (simp add: page_defs service_defs example_defs)
  from e1 have h1: "confirmArchive (Some drill) (Some 1) ''broken'' one_drill = (Inr (), ?w1)"
    by (simp add: prod_eq_iff)
  from e2 have h2: "confirmUnarchive (Some drill) (Some 1) ''repaired'' ?w1 = (Inr (), ?w2)"
    by (simp add: prod_eq_iff)
  from archive_restore_round_trip[OF h1 h2 refl]
  have "(\<exists>it \<in> set (items ?w1). i_id it = i_id drill \<and> status it = Archived
           \<and> archived_at it = Some (clock one_drill) \<and> archived_reason it = Some ''broken'')
      \<and> (\<exists>it \<in> set (items ?w2). i_id it = i_id drill \<and> status it = Available
           \<and> last_used_by it = None \<and> archived_reason it = None \<and> archived_at it = None)"
    by blast
  with e1 e2 show ?thesis by blast
qed

subsection \<open>A failed approval\<close>

lemma returned_still_queued_reachable:
  "approveRequest 22 1 (borrowed_drill\<lparr>faults := [False, False, False, False, True]\<rparr>)
     = (Inl Failed_to_delete_pending_requests, returned_still_queued)"
  by (simp add: service_defs example_defs)

subsection \<open>Archiving\<close>

text \<open>
  Claim C8, as the code has it. The page offers Archive only for an item whose status is
  not used, and clicking through for an item in use does nothing; \<open>confirmArchive\<close>
  itself does not look at the status and has no invalid-state failure: whenever it
  completes, the item is stored as archived, with the time and the reason.
\<close>

theorem archive_gate:
  "(status it = Used \<longrightarrow> archive_click userRole userId it reason w = (Inr (), w))
   \<and> (archive_offered userRole it \<longrightarrow> status it \<noteq> Used)
   \<and> (confirmArchive (Some it) userId reason w = (Inr (), w') \<longrightarrow>
        (\<exists>x \<in> set (items w'). i_id x = i_id it)
        \<and> (\<forall>x \<in> set (items w'). i_id x = i_id it \<longrightarrow>
              status x = Archived \<and> archived_at x = Some (clock w)
              \<and> archived_reason x = Some reason))"
proof (intro conjI impI)
  assume "status it = Used"
  then show "archive_click userRole userId it reason w = (Inr (), w)"
    by (simp add: archive_click_def archive_offered_def)
next
  assume "archive_offered userRole it"
  then show "status it \<noteq> Used" by (simp add: archive_offered_def)
next
  assume c: "confirmArchive (Some it) userId reason w = (Inr (), w')"
  then obtain uid upd wa where
    a: "updateItemStatus (i_id it) Archived uid
        \<lparr>a_last_used_by = None, a_archived_reason = Some (Some reason)\<rparr> w = (Inr upd, wa)"
    and ia: "items w' = items wa"
    by (rule confirmArchive_ok)
  from updateItemStatus_clock[OF a] ia
  show "\<exists>x \<in> set (items w'). i_id x = i_id it" by simp
  from updateItemStatus_clock[OF a] ia
  show "\<forall>x \<in> set (items w'). i_id x = i_id it \<longrightarrow>
              status x = Archived \<and> archived_at x = Some (clock w)
              \<and> archived_reason x = Some reason"
    by (auto simp: archive_update_fields)
qed

theorem archive_gate_witness:
  "archive_click (Some Admin) (Some 1) (drill\<lparr>status := Used, last_used_by := Some 2\<rparr>)
       ''lost'' borrowed_drill = (Inr (), borrowed_drill)
   \<and> archive_offered (Some Admin) drill \<and> status drill \<noteq> Used
   \<and> fst (confirmArchive (Some drill) (Some 1) ''broken'' one_drill) = Inr ()
   \<and> (\<exists>x \<in> set (items (snd (confirmArchive (Some drill) (Some 1) ''broken'' one_drill))).
         i_id x = i_id drill \<and> status x = Archived \<and> archived_at x = Some (clock one_drill)
         \<and> archived_reason x = Some ''broken'')"
proof -
  let ?used = "drill\<lparr>status := Used, last_used_by := Some 2\<rparr>"
  let ?w1 = "snd (confirmArchive (Some drill) (Some 1) ''broken'' one_drill)"
  have u: "status ?used = Used" by simp
  have o: "archive_offered (Some Admin) drill" by (simp add: archive_offered_def drill_def)
  have e: "fst (confirmArchive (Some drill) (Some 1) ''broken'' one_drill) = Inr ()"
    by (simp add: page_defs service_defs example_defs)
  then have h: "confirmArchive (Some drill) (Some 1) ''broken'' one_drill = (Inr (), ?w1)"
    by (simp add: prod_eq_iff)
  note g1 = archive_gate[of ?used "Some Admin" "Some 1" "''lost''" borrowed_drill borrowed_drill]
  note g2 = archive_gate[of drill "Some Admin" "Some 1" "''broken''" one_drill ?w1]
  from g1 u have 1: "archive_click (Some Admin) (Some 1) ?used ''lost'' borrowed_drill = (Inr (), borrowed_drill)"
    by blast
  from g2 o have 2: "status drill \<noteq> Used" by blast
  from g2 h have 3: "\<exists>x \<in> set (items ?w1).
         i_id x = i_id drill \<and> status x = Archived \<and> archived_at x = Some (clock one_drill)
         \<and> archived_reason x = Some ''broken''"
    by blast
  from 1 o 2 e 3 show ?thesis by blast
qed

text \<open>
  Claim C8 as stated fails. \<open>confirmArchive\<close> called for the item that budi is using
  completes, and the item is stored as archived, still with budi as \<open>last_used_by\<close>;
  the same happens through the Archive button when the page still lists the item as
  available.
\<close>

theorem archive_of_used_item_counterexample:
  "fst (confirmArchive (Some (drill\<lparr>status := Used, last_used_by := Some 2\<rparr>)) (Some 1)
          ''lost'' borrowed_drill) = Inr ()
   \<and> map status (items borrowed_drill) = [Used]
   \<and> map status (items (snd (confirmArchive
          (Some (drill\<lparr>status := Used, last_used_by := Some 2\<rparr>)) (Some 1)
          ''lost'' borrowed_drill))) = [Archived]
   \<and> map last_used_by (items (snd (confirmArchive
          (Some (drill\<lparr>status := Used, last_used_by := Some 2\<rparr>)) (Some 1)
          ''lost'' borrowed_drill))) = [Some 2]
   \<and> fst (archive_click (Some Admin) (Some 1) drill ''lost'' borrowed_drill) = Inr ()
   \<and> map status (items (snd (archive_click (Some Admin) (Some 1) drill ''lost''
          borrowed_drill))) = [Archived]"
  by (simp add: page_defs service_defs example_defs)

subsection \<open>Submitting a request\<close>

lemma hasUserPendingRequest_frame:
  "hasUserPendingRequest i u t w = (b, w') \<Longrightarrow>
     users w' = users w \<and> items w' = items w \<and> pending_requests w' = pending_requests w
     \<and> histories w' = histories w"
  by (auto simp: hasUserPendingRequest_def split: prod.splits bool.splits sum.splits
      dest!: backend_call_frame)

lemma getItemById_frame:
  "getItemById i w = (res, w') \<Longrightarrow>
     users w' = users w \<and> items w' = items w \<and> pending_requests w' = pending_requests w
     \<and> histories w' = histories w"
  by (auto simp: getItemById_def split: prod.splits bool.splits sum.splits if_splits
      dest!: backend_call_frame)

lemma validateReturnRequest_frame:
  "validateReturnRequest i u w = (res, w') \<Longrightarrow>
     users w' = users w \<and> items w' = items w \<and> pending_requests w' = pending_requests w
     \<and> histories w' = histories w"
  by (auto simp: validateReturnRequest_def await_def
      split: prod.splits sum.splits option.splits if_splits dest!: getItemById_frame)

lemma insert_request_cases:
  "insert_request p w = (res, w') \<Longrightarrow>
     users w' = users w \<and> items w' = items w \<and> histories w' = histories w
     \<and> ((\<exists>e. res = Inl e) \<and> pending_requests w' = pending_requests w
        \<or> (\<exists>r. res = Inr r \<and> pending_requests w' = pending_requests w @ [r]
              \<and> item_id r = p_item_id p \<and> requested_by r = p_requested_by p
              \<and> r_type r = p_action_type p))"
  by (auto simp: insert_request_def Let_def split: prod.splits bool.splits
      dest!: backend_call_frame)

lemma createRequest_cases:
  assumes "createRequest p w = (res, w')"
  shows "users w' = users w \<and> items w' = items w \<and> histories w' = histories w
     \<and> ((\<exists>e. res = Inl e) \<and> pending_requests w' = pending_requests w
        \<or> (\<exists>r. res = Inr r \<and> pending_requests w' = pending_requests w @ [r]
              \<and> item_id r = p_item_id p \<and> requested_by r = p_requested_by p
              \<and> r_type r = p_action_type p))"
proof -
  obtain b w1 where h: "hasUserPendingRequest (p_item_id p) (p_requested_by p) (p_action_type p) w = (b, w1)"
    by (cases "hasUserPendingRequest (p_item_id p) (p_requested_by p) (p_action_type p) w")
  note hf = hasUserPendingRequest_frame[OF h]
  show ?thesis
  proof (cases b)
    case True
    with assms h hf show ?thesis by (auto simp: createRequest_def)
  next
    case False
    show ?thesis
    proof (cases "p_action_type p = Return")
      case nr: False
      with assms h False have "insert_request p w1 = (res, w')"
        by (simp add: createRequest_def)
      from insert_request_cases[OF this] hf show ?thesis by simp
    next
      case True
      obtain v w2 where v: "validateReturnRequest (p_item_id p) (p_requested_by p) w1 = (v, w2)"
        by (cases "validateReturnRequest (p_item_id p) (p_requested_by p) w1")
      note vf = validateReturnRequest_frame[OF v]
      show ?thesis
      proof (cases v)
        case (Inl e)
        with assms h False True v have "res = Inl e" "w' = w2"
          by (simp_all add: createRequest_def await_def)
        with vf hf show ?thesis by simp
      next
        case (Inr val)
        show ?thesis
        proof (cases "valid val")
          case True
          with assms h False \<open>p_action_type p = Return\<close> v Inr
          have "insert_request p w2 = (res, w')"
            by (simp add: createRequest_def await_def)
          from insert_request_cases[OF this] hf vf show ?thesis by simp
        next
          case nv: False
          with assms h False True v Inr have "\<exists>e. res = Inl e" "w' = w2"
            by (auto simp: createRequest_def await_def)
          with vf hf show ?thesis by simp
        qed
      qed
    qed
  qed
qed

lemma handleBorrowReturn_cases:
  assumes "handleBorrowReturn prs requesting uid it w = (res, w')"
  shows "users w' = users w \<and> items w' = items w
     \<and> (pending_requests w' = pending_requests w
        \<or> (\<exists>r. pending_requests w' = pending_requests w @ [r]
              \<and> item_id r = i_id it \<and> Some (requested_by r) = uid
              \<and> r_type r = (if status it = Available then Use else Return)
              \<and> (status it = Available \<or> status it = Used)))"
proof (cases "\<exists>u. uid = Some u \<and> \<not> (status it = Used \<and> last_used_by it \<noteq> Some u)
                \<and> i_id it \<notin> requesting
                \<and> \<not> page_hasUserPendingRequest prs uid (i_id it)
                       (if status it = Available then Use else Return)
                \<and> (status it = Available \<or> status it = Used)")
  case False
  with assms have "w' = w"
    by (auto simp: handleBorrowReturn_def Let_def split: option.splits if_splits)
  then show ?thesis by simp
next
  case True
  then obtain u where u: "uid = Some u" by blast
  let ?p = "\<lparr>p_item_id = i_id it, p_requested_by = u,
             p_action_type = (if status it = Available then Use else Return)\<rparr>"
  obtain cr w1 where c: "createRequest ?p w = (cr, w1)"
    by (cases "createRequest ?p w")
  note cf = createRequest_cases[OF c]
  have rest: "users w' = users w1 \<and> items w' = items w1 \<and> pending_requests w' = pending_requests w1"
    using assms True u c
    by (auto simp: handleBorrowReturn_def Let_def await_def
        split: option.splits if_splits sum.splits prod.splits
        dest!: createEntry_frame loadData_frame)
  from cf rest True u show ?thesis by auto
qed

text \<open>
  Claim C5, as the code has it. The item's status is checked by the page handler
  \<open>handleBorrowReturn\<close>, on the item as the page lists it: for an item listed as
  archived (or with any status other than available and used) the handler leaves the
  store untouched and ends with an error, "Cannot perform action on this item" when the
  user is signed in, the item is not already being requested and no pending return
  request of the user is listed; and every request the handler enqueues is for the listed
  item, of type use only when the item is listed as available and of type return only
  when it is listed as used.
\<close>

theorem borrow_return_checks_status:
  "(status it \<noteq> Available \<and> status it \<noteq> Used \<longrightarrow>
       snd (handleBorrowReturn prs requesting uid it w) = w
       \<and> (i_id it \<notin> requesting \<longrightarrow>
            (\<exists>e. fst (handleBorrowReturn prs requesting uid it w) = Inl e))
       \<and> (uid \<noteq> None \<and> i_id it \<notin> requesting
            \<and> \<not> page_hasUserPendingRequest prs uid (i_id it) Return \<longrightarrow>
            fst (handleBorrowReturn prs requesting uid it w) = Inl Cannot_perform_action))
   \<and> (\<forall>r \<in> set (pending_requests (snd (handleBorrowReturn prs requesting uid it w))).
         r \<notin> set (pending_requests w) \<longrightarrow>
           item_id r = i_id it \<and> (r_type r = Use \<longrightarrow> status it = Available)
           \<and> (r_type r = Return \<longrightarrow> status it = Used))"
proof (intro conjI impI ballI)
  assume s: "status it \<noteq> Available \<and> status it \<noteq> Used"
  then show "snd (handleBorrowReturn prs requesting uid it w) = w"
    by (auto simp: handleBorrowReturn_def Let_def split: option.splits)
  {
    assume "i_id it \<notin> requesting"
    with s show "\<exists>e. fst (handleBorrowReturn prs requesting uid it w) = Inl e"
      by (auto simp: handleBorrowReturn_def Let_def split: option.splits)
  }
  {
    assume "uid \<noteq> None \<and> i_id it \<notin> requesting
            \<and> \<not> page_hasUserPendingRequest prs uid (i_id it) Return"
    with s show "fst (handleBorrowReturn prs requesting uid it w) = Inl Cannot_perform_action"
      by (auto simp: handleBorrowReturn_def Let_def split: option.splits)
  }
next
  fix r
  assume r: "r \<in> set (pending_requests (snd (handleBorrowReturn prs requesting uid it w)))"
    "r \<notin> set (pending_requests w)"
  have "handleBorrowReturn prs requesting uid it w =
      (fst (handleBorrowReturn prs requesting uid it w), snd (handleBorrowReturn prs requesting uid it w))"
    by simp
  from handleBorrowReturn_cases[OF this] r
  have "item_id r = i_id it \<and> r_type r = (if status it = Available then Use else Return)
              \<and> (status it = Available \<or> status it = Used)"
    by auto
  then show "item_id r = i_id it" "r_type r = Use \<Longrightarrow> status it = Available"
    "r_type r = Return \<Longrightarrow> status it = Used"
    by (auto split: if_splits)
qed

theorem borrow_return_checks_status_witness:
  "handleBorrowReturn [] {} (Some 2)
      (drill\<lparr>status := Archived, archived_reason := Some ''broken'', archived_at := Some 3\<rparr>)
      archived_drill = (Inl Cannot_perform_action, archived_drill)
   \<and> fst (handleBorrowReturn [] {} (Some 2) drill one_drill) = Inr ()
   \<and> (\<exists>r \<in> set (pending_requests (snd (handleBorrowReturn [] {} (Some 2) drill one_drill))).
         item_id r = i_id drill \<and> r_type r = Use \<and> status drill = Available)"
proof -
  let ?broken = "drill\<lparr>status := Archived, archived_reason := Some ''broken'', archived_at := Some 3\<rparr>"
  let ?w1 = "snd (handleBorrowReturn [] {} (Some 2) drill one_drill)"
  have s: "status ?broken \<noteq> Available \<and> status ?broken \<noteq> Used" by simp
  have n: "Some (2::nat) \<noteq> None \<and> i_id ?broken \<notin> {}
            \<and> \<not> page_hasUserPendingRequest [] (Some 2) (i_id ?broken) Return"
    by (simp add: page_hasUserPendingRequest_def)
  from borrow_return_checks_status[of ?broken "[]" "{}" "Some 2" archived_drill] s n
  have 1: "handleBorrowReturn [] {} (Some 2) ?broken archived_drill
             = (Inl Cannot_perform_action, archived_drill)"
    by (simp add: prod_eq_iff)
  have e: "fst (handleBorrowReturn [] {} (Some 2) drill one_drill) = Inr ()"
    by (simp add: page_defs service_defs example_defs)
  have p: "pending_requests ?w1 =
      [\<lparr>r_id = 30, item_id = 10, r_type = Use, requested_by = 2, requested_at = 7\<rparr>]"
    by (simp add: page_defs service_defs example_defs)
  let ?r = "\<lparr>r_id = 30, item_id = 10, r_type = Use, requested_by = 2, requested_at = 7\<rparr>"
  have m: "?r \<in> set (pending_requests ?w1)"
    by (simp only: p list.set_intros)
  have "?r \<notin> set (pending_requests one_drill)"
    by (simp add: one_drill_def)
  with m borrow_return_checks_status[of drill "[]" "{}" "Some 2" one_drill]
  have "item_id ?r = i_id drill \<and> (r_type ?r = Use \<longrightarrow> status drill = Available)"
    by blast
  then have "item_id ?r = i_id drill \<and> r_type ?r = Use \<and> status drill = Available"
    by simp
  with m
  have 3: "\<exists>r \<in> set (pending_requests ?w1).
         item_id r = i_id drill \<and> r_type r = Use \<and> status drill = Available"
    by blast
  from 1 e 3 show ?thesis by blast
qed

text \<open>
  Claim C5 as stated fails. \<open>createRequest\<close> does not read the item for a use request,
  and the handler checks the item as the page lists it: with the drill archived in the
  store but still listed as available, the handler enqueues a use request for it, and so
  does \<open>createRequest\<close> called directly.
\<close>

theorem use_request_on_archived_item_counterexample:
  "fst (handleBorrowReturn [] {} (Some 2) drill archived_drill) = Inr ()
   \<and> status drill = Available
   \<and> map status (items archived_drill) = [Archived]
   \<and> pending_requests archived_drill = []
   \<and> pending_requests (snd (handleBorrowReturn [] {} (Some 2) drill archived_drill))
     = [\<lparr>r_id = 30, item_id = 10, r_type = Use, requested_by = 2, requested_at = 7\<rparr>]
   \<and> fst (createRequest \<lparr>p_item_id = 10, p_requested_by = 2, p_action_type = Use\<rparr> archived_drill)
     = Inr \<lparr>r_id = 30, item_id = 10, r_type = Use, requested_by = 2, requested_at = 7\<rparr>"
  by (simp add: page_defs service_defs example_defs)

lemma hasUserPendingRequest_snd:
  "snd (hasUserPendingRequest i u t w) = snd (backend_call w)"
  by (auto simp: hasUserPendingRequest_def split: prod.splits bool.splits sum.splits)

lemma validateReturnRequest_valid:
  "validateReturnRequest i u w = (Inr v, w') \<Longrightarrow> valid v \<Longrightarrow>
     \<exists>it. filter (\<lambda>it. i_id it = i) (items w) = [it] \<and> status it = Used
          \<and> last_used_by it = Some u"
  by (auto simp: validateReturnRequest_def await_def getItemById_def single_Inr
      split: prod.splits sum.splits option.splits if_splits bool.splits
      dest!: backend_call_frame)

lemma single_Inl: "single xs = Inl e \<Longrightarrow> e = PGRST116"
  by (auto simp: single_def split: list.splits)

lemma validateReturnRequest_answers:
  "\<not> fst (backend_call w) \<Longrightarrow> \<exists>v. fst (validateReturnRequest i u w) = Inr v"
  by (auto simp: validateReturnRequest_def await_def getItemById_def
      split: prod.splits sum.splits option.splits if_splits bool.splits dest: single_Inl)

text \<open>
  Claim C6, as the code has it. A return request is refused, and nothing is enqueued,
  unless the one row of the item has status used and \<open>last_used_by\<close> equal to the
  requester. The refusal is the validation's message whenever the duplicate check, which
  runs first, answers false and the read of the item gets through to the backend.
\<close>

theorem return_request_refused:
  assumes "p_action_type params = Return"
      and "\<not> (\<exists>it. filter (\<lambda>it. i_id it = p_item_id params) (items w) = [it]
                 \<and> status it = Used \<and> last_used_by it = Some (p_requested_by params))"
  shows "(\<exists>e. fst (createRequest params w) = Inl e)
       \<and> pending_requests (snd (createRequest params w)) = pending_requests w
       \<and> (\<not> fst (hasUserPendingRequest (p_item_id params) (p_requested_by params) Return w)
            \<and> \<not> fst (backend_call (snd (backend_call w))) \<longrightarrow>
          (\<exists>msg. fst (createRequest params w) = Inl (Return_rejected msg)))"
proof -
  let ?h = "hasUserPendingRequest (p_item_id params) (p_requested_by params) Return w"
  obtain b w1 where h: "?h = (b, w1)" by (cases ?h)
  note hf = hasUserPendingRequest_frame[OF h]
  from h have w1: "w1 = snd (backend_call w)"
    using hasUserPendingRequest_snd[of "p_item_id params" "p_requested_by params" Return w] by simp
  show ?thesis
  proof (cases b)
    case True
    with h assms(1) have "createRequest params w = (Inl Already_pending, w1)"
      by (simp add: createRequest_def)
    with hf h True show ?thesis by simp
  next
    case False
    let ?v = "validateReturnRequest (p_item_id params) (p_requested_by params) w1"
    obtain v w2 where v: "?v = (v, w2)" by (cases ?v)
    note vf = validateReturnRequest_frame[OF v]
    show ?thesis
    proof (cases v)
      case (Inl e)
      with h False assms(1) v have c: "createRequest params w = (Inl e, w2)"
        by (simp add: createRequest_def await_def)
      have "fst (backend_call w1)"
      proof (rule ccontr)
        assume "\<not> fst (backend_call w1)"
        from validateReturnRequest_answers[OF this, of "p_item_id params" "p_requested_by params"]
        show False using v Inl by simp
      qed
      with c vf hf w1 show ?thesis by simp
    next
      case (Inr val)
      have nv: "\<not> valid val"
      proof
        assume "valid val"
        from validateReturnRequest_valid[OF v[unfolded Inr] this] hf assms(2)
        show False by simp
      qed
      with h False assms(1) v Inr
      have "\<exists>msg. createRequest params w = (Inl (Return_rejected msg), w2)"
        by (simp add: createRequest_def await_def)
      with vf hf show ?thesis by auto
    qed
  qed
qed

theorem return_request_refused_witness:
  "p_action_type \<lparr>p_item_id = 10, p_requested_by = 3, p_action_type = Return\<rparr> = Return
   \<and> map last_used_by (items borrowed_drill) = [Some 2]
   \<and> fst (createRequest \<lparr>p_item_id = 10, p_requested_by = 3, p_action_type = Return\<rparr>
            borrowed_drill) = Inl (Return_rejected ''Only budi can return this item'')
   \<and> pending_requests (snd (createRequest
         \<lparr>p_item_id = 10, p_requested_by = 3, p_action_type = Return\<rparr> borrowed_drill))
       = pending_requests borrowed_drill"
proof -
  let ?p = "\<lparr>p_item_id = 10, p_requested_by = 3, p_action_type = Return\<rparr>"
  have t: "p_action_type ?p = Return" by simp
  have n: "\<not> (\<exists>it. filter (\<lambda>it. i_id it = p_item_id ?p) (items borrowed_drill) = [it]
                 \<and> status it = Used \<and> last_used_by it = Some (p_requested_by ?p))"
    by (simp add: example_defs)
  have l: "map last_used_by (items borrowed_drill) = [Some 2]"
    by (simp add: example_defs)
  have e: "fst (createRequest ?p borrowed_drill) = Inl (Return_rejected ''Only budi can return this item'')"
    by (simp add: service_defs example_defs)
  from return_request_refused[OF t n]
  have "pending_requests (snd (createRequest ?p borrowed_drill)) = pending_requests borrowed_drill"
    by blast
  with t l e show ?thesis by blast
qed

text \<open>
  Claim C6 as stated fails on the kind of failure: with the item no longer in use and
  budi's return request still queued, a second return request of budi is refused by the
  duplicate check ("You already have a pending request for this item"), before the
  validation of the return is reached.
\<close>

theorem return_request_duplicate_first_counterexample:
  "createRequest \<lparr>p_item_id = 10, p_requested_by = 2, p_action_type = Return\<rparr>
      returned_still_queued = (Inl Already_pending, returned_still_queued)
   \<and> map status (items returned_still_queued) = [Available]
   \<and> map last_used_by (items returned_still_queued) = [None]"
  by (simp add: service_defs example_defs)

subsection \<open>Sequences of operations\<close>

lemma await_cases:
  assumes "await m k w = (res, w')"
  obtains (failed) e where "m w = (Inl e, w')" "res = Inl e"
        | (went_on) a w1 where "m w = (Inr a, w1)" "k a w1 = (res, w')"
  using assms unfolding await_def by (auto split: prod.splits sum.splits)

lemma updateItemStatus_failed:
  "updateItemStatus i st by ad w = (Inl e, w') \<Longrightarrow> items w' = items w"
  by (auto simp: updateItemStatus_def Let_def split: prod.splits bool.splits sum.splits
      dest!: backend_call_frame)

lemma updateItemStatus_used_iff_borrower:
  assumes "updateItemStatus i st by ad w = (res, w')" and "used_iff_borrower w"
    and "\<And>old. filter (\<lambda>it. i_id it = i) (items w) = [old] \<Longrightarrow>
           (st = Used) = ((case a_last_used_by ad of None \<Rightarrow> last_used_by old | Some v \<Rightarrow> v) \<noteq> None)"
  shows "used_iff_borrower w'"
proof (cases res)
  case (Inl e)
  with assms(1) have "items w' = items w" by (simp add: updateItemStatus_failed)
  with assms(2) show ?thesis by (simp add: used_iff_borrower_def)
next
  case (Inr upd)
  let ?d = "build_update_data st by ad (clock w)"
  from assms(1) Inr updateItemStatus_ok[of i st "by" ad w upd w']
  obtain the_row where row: "filter (\<lambda>it. i_id it = i) (items w) = [the_row]"
    and its: "items w' = map (\<lambda>it. if i_id it = i then apply_update ?d it else it) (items w)"
    by auto
  have st: "status (apply_update ?d old) = st" for old
    by (simp add: apply_update_def build_update_data_def Let_def)
  have lu: "last_used_by (apply_update ?d old)
      = (case a_last_used_by ad of None \<Rightarrow> last_used_by old | Some v \<Rightarrow> v)" for old
    by (simp add: apply_update_def build_update_data_def Let_def split: option.splits)
  show ?thesis
    unfolding used_iff_borrower_def its list_all_iff
  proof
    fix x assume "x \<in> set (map (\<lambda>it. if i_id it = i then apply_update ?d it else it) (items w))"
    then obtain old where o: "old \<in> set (items w)"
      "x = (if i_id old = i then apply_update ?d old else old)" by auto
    show "(status x = Used) = (last_used_by x \<noteq> None)"
    proof (cases "i_id old = i")
      case True
      with o(1) have "old \<in> set (filter (\<lambda>it. i_id it = i) (items w))" by simp
      with row have "old = the_row" by simp
      with True o(2) have "x = apply_update ?d the_row" by simp
      with assms(3)[OF row] st[of the_row] lu[of the_row] show ?thesis by simp
    next
      case False
      with o assms(2) show ?thesis by (simp add: used_iff_borrower_def list_all_iff)
    qed
  qed
qed

lemma createItem_items:
  assumes "createItem d by w = (res, w')"
  shows "items w' = items w
     \<or> (\<exists>it. items w' = items w @ [it] \<and> status it = Available \<and> last_used_by it = None)"
proof -
  obtain f w1 where b: "backend_call w = (f, w1)" by (cases "backend_call w")
  from assms b backend_call_frame[OF b] show ?thesis
    by (cases f) (auto simp: createItem_def Let_def split: if_splits)
qed

lemma createItem_used_iff_borrower:
  "createItem d by w = (res, w') \<Longrightarrow> used_iff_borrower w \<Longrightarrow> used_iff_borrower w'"
  by (drule createItem_items) (auto simp: used_iff_borrower_def)


lemma await_keeps_items:
  assumes "await m k w = (res, w')"
    and "\<And>r v. m w = (r, v) \<Longrightarrow> items v = items w"
    and "\<And>a v r. k a v = (r, w') \<Longrightarrow> items w' = items v"
  shows "items w' = items w"
  using assms(1)
proof (cases rule: await_cases)
  case (failed e)
  then show ?thesis using assms(2) by blast
next
  case (went_on a w1)
  from assms(2)[OF went_on(1)] assms(3)[OF went_on(2)] show ?thesis by simp
qed

lemma onSubmit_used_iff_borrower:
  assumes "onSubmit userId d w = (res, w')" and "used_iff_borrower w"
  shows "used_iff_borrower w'"
proof (cases userId)
  case None
  with assms show ?thesis by (simp add: onSubmit_def)
next
  case (Some uid)
  with assms(1) have "await (createItem d uid) (\<lambda>newItem.
            await (createEntry
                     \<lparr>e_item_id = i_id newItem, e_action = Created, e_performed_by = uid,
                      e_details = Some ''Item created in system'',
                      e_previous_status = None, e_new_status = Some Available\<rparr>) (\<lambda>h w'.
              (Inr (), w'))) w = (res, w')"
    by (simp add: onSubmit_def)
  then show ?thesis
  proof (cases rule: await_cases)
    case (failed e)
    from createItem_used_iff_borrower[OF failed(1) assms(2)] show ?thesis .
  next
    case (went_on a w1)
    from createItem_used_iff_borrower[OF went_on(1) assms(2)] have i1: "used_iff_borrower w1" .
    from went_on(2) have "items w' = items w1"
    proof (rule await_keeps_items)
      fix r v assume "createEntry \<lparr>e_item_id = i_id a, e_action = Created, e_performed_by = uid,
                      e_details = Some ''Item created in system'',
                      e_previous_status = None, e_new_status = Some Available\<rparr> w1 = (r, v)"
      from createEntry_frame[OF this] show "items v = items w1" by simp
    next
      fix b v r assume "(Inr (), v) = (r, w')"
      then show "items w' = items v" by simp
    qed
    with i1 show ?thesis by (simp add: used_iff_borrower_def)
  qed
qed


lemma approve_tail_items:
  assumes "await (createEntry e) (\<lambda>h.
             await (reject_others req it by ns others) (\<lambda>u.
               delete_requests_of_item i)) w = (res, w')"
  shows "items w' = items w"
  using assms
proof (rule await_keeps_items)
  fix r v assume "createEntry e w = (r, v)"
  then show "items v = items w" by (blast dest: createEntry_frame)
next
  fix a v r
  assume "await (reject_others req it by ns others) (\<lambda>u. delete_requests_of_item i) v = (r, w')"
  then show "items w' = items v"
    by (rule await_keeps_items)
       (blast dest: reject_others_frame, blast dest: delete_requests_of_item_frame)
qed

lemma approveRequest_used_iff_borrower:
  assumes "approveRequest requestId approvedBy w = (res, w')" and "used_iff_borrower w"
  shows "used_iff_borrower w'"
  using assms(1) unfolding approveRequest_def
proof (cases rule: await_cases)
  case (failed e)
  from fetch_request_frame[OF failed(1)] assms(2) show ?thesis
    by (simp add: used_iff_borrower_def)
next
  case (went_on req w1)
  from fetch_request_frame[OF went_on(1)] assms(2) have i1: "used_iff_borrower w1"
    by (simp add: used_iff_borrower_def)
  show ?thesis
  proof (cases "joined_item req")
    case None
    with went_on(2) i1 show ?thesis by simp
  next
    case (Some it)
    let ?ns = "if r_type (request req) = Use then Used else Available"
    let ?ad = "if r_type (request req) = Use
                    then \<lparr>a_last_used_by = Some (Some (requested_by (request req))),
                          a_archived_reason = None\<rparr>
                    else \<lparr>a_last_used_by = Some None, a_archived_reason = None\<rparr>"
    note t = went_on(2)[unfolded Some option.case]
    from t show ?thesis
    proof (cases rule: await_cases)
      case (failed e)
      from getPendingRequestsForItem_frame[OF failed(1)] i1 show ?thesis
        by (simp add: used_iff_borrower_def)
    next
      case (went_on allp w2)
      from getPendingRequestsForItem_frame[OF went_on(1)] i1 have i2: "used_iff_borrower w2"
        by (simp add: used_iff_borrower_def)
      note t2 = went_on(2)[unfolded Let_def]
      from t2 show ?thesis
      proof (cases rule: await_cases)
        case (failed e)
        from updateItemStatus_used_iff_borrower[OF failed(1) i2] show ?thesis by simp
      next
        case (went_on upd w3)
        from updateItemStatus_used_iff_borrower[OF went_on(1) i2] have i3: "used_iff_borrower w3"
          by simp
        from went_on(2) have "items w' = items w3"
          by (rule approve_tail_items)
        with i3 show ?thesis by (simp add: used_iff_borrower_def)
      qed
    qed
  qed
qed

lemma find_is_the_row: "find P xs = Some x \<Longrightarrow> filter P xs = [y] \<Longrightarrow> x = y"
  by (induction xs) (auto split: if_splits)

lemma page_tail_items:
  assumes "await (createEntry e) (\<lambda>h. loadData) w = (res, w')"
  shows "items w' = items w \<and> pending_requests w' = pending_requests w"
  using assms
proof (cases rule: await_cases)
  case (failed x)
  from createEntry_frame[OF failed(1)] show ?thesis by simp
next
  case (went_on h w1)
  from createEntry_frame[OF went_on(1)] loadData_frame[OF went_on(2)] show ?thesis by simp
qed

lemma confirmArchive_used_iff_borrower:
  assumes "confirmArchive (Some it) userId reason w = (res, w')" and "used_iff_borrower w"
    and "listed_item w (i_id it) = Some it" and "status it \<noteq> Used"
  shows "used_iff_borrower w'"
proof (cases userId)
  case None
  with assms(1,2) show ?thesis by (simp add: confirmArchive_def)
next
  case (Some uid)
  note t = assms(1)[unfolded confirmArchive_def Some option.case]
  from assms(2,3,4) have nb: "last_used_by it = None"
    by (auto simp: used_iff_borrower_def list_all_iff listed_item_def dest!: find_Some_id)
  from t show ?thesis
  proof (cases rule: await_cases)
    case (failed e)
    from updateItemStatus_used_iff_borrower[OF failed(1) assms(2)] assms(3) nb
    show ?thesis by (auto simp: listed_item_def dest: find_is_the_row)
  next
    case (went_on upd w1)
    from updateItemStatus_used_iff_borrower[OF went_on(1) assms(2)] assms(3) nb
    have "used_iff_borrower w1" by (auto simp: listed_item_def dest: find_is_the_row)
    with page_tail_items[OF went_on(2)] show ?thesis by (simp add: used_iff_borrower_def)
  qed
qed

lemma confirmUnarchive_used_iff_borrower:
  assumes "confirmUnarchive sel userId reason w = (res, w')" and "used_iff_borrower w"
  shows "used_iff_borrower w'"
proof (cases sel)
  case None
  with assms show ?thesis by (simp add: confirmUnarchive_def)
next
  case sel: (Some it)
  show ?thesis
  proof (cases userId)
    case None
    with assms sel show ?thesis by (simp add: confirmUnarchive_def)
  next
    case (Some uid)
    note t = assms(1)[unfolded confirmUnarchive_def sel Some option.case]
    from t show ?thesis
    proof (cases rule: await_cases)
      case (failed e)
      from updateItemStatus_used_iff_borrower[OF failed(1) assms(2)] show ?thesis by simp
    next
      case (went_on upd w1)
      from updateItemStatus_used_iff_borrower[OF went_on(1) assms(2)]
      have "used_iff_borrower w1" by simp
      with page_tail_items[OF went_on(2)] show ?thesis by (simp add: used_iff_borrower_def)
    qed
  qed
qed

lemma rejectRequest_effect:
  assumes "rejectRequest requestId rejectedBy w = (res, w')"
  shows "items w' = items w
       \<and> (pending_requests w' = pending_requests w
          \<or> pending_requests w' = filter (\<lambda>r. r_id r \<noteq> requestId) (pending_requests w))"
  using assms unfolding rejectRequest_def
proof (cases rule: await_cases)
  case (failed e)
  from fetch_request_frame[OF failed(1)] show ?thesis by simp
next
  case (went_on req w1)
  note f = fetch_request_frame[OF went_on(1)]
  show ?thesis
  proof (cases "joined_item req")
    case None
    with went_on(2) f show ?thesis by simp
  next
    case (Some it)
    note t = went_on(2)[unfolded Some option.case]
    from t show ?thesis
    proof (cases rule: await_cases)
      case (failed e)
      from createEntry_frame[OF failed(1)] f show ?thesis by simp
    next
      case (went_on h w2)
      note c = createEntry_frame[OF went_on(1)]
      from went_on(2) c f show ?thesis
        by (auto simp: deleteRequest_def split: prod.splits bool.splits dest!: backend_call_frame)
    qed
  qed
qed

lemma step_used_iff_borrower:
  assumes "used_iff_borrower w"
  shows "used_iff_borrower (step operation w)"
proof (cases operation)
  case (Create_item userId d)
  have "onSubmit userId d w = (fst (onSubmit userId d w), snd (onSubmit userId d w))" by simp
  from onSubmit_used_iff_borrower[OF this assms] Create_item show ?thesis by simp
next
  case (Submit_request params)
  have "createRequest params w = (fst (createRequest params w), snd (createRequest params w))"
    by simp
  from createRequest_cases[OF this] assms Submit_request show ?thesis
    by (simp add: used_iff_borrower_def)
next
  case (Borrow_or_return uid i)
  show ?thesis
  proof (cases "listed_item w i")
    case None
    with Borrow_or_return assms show ?thesis by simp
  next
    case (Some it)
    let ?h = "handleBorrowReturn (pending_requests w) {} uid it w"
    have "?h = (fst ?h, snd ?h)" by simp
    from handleBorrowReturn_cases[OF this] assms Borrow_or_return Some show ?thesis
      by (simp add: used_iff_borrower_def)
  qed
next
  case (Approve requestId approvedBy)
  have "approveRequest requestId approvedBy w
      = (fst (approveRequest requestId approvedBy w), snd (approveRequest requestId approvedBy w))"
    by simp
  from approveRequest_used_iff_borrower[OF this assms] Approve show ?thesis by simp
next
  case (Reject requestId rejectedBy)
  have "rejectRequest requestId rejectedBy w
      = (fst (rejectRequest requestId rejectedBy w), snd (rejectRequest requestId rejectedBy w))"
    by simp
  from rejectRequest_effect[OF this] assms Reject show ?thesis
    by (simp add: used_iff_borrower_def)
next
  case (Archive userRole userId i reason)
  show ?thesis
  proof (cases "listed_item w i")
    case None
    with Archive assms show ?thesis by simp
  next
    case (Some it)
    then have iid: "i_id it = i" by (auto simp: listed_item_def dest: find_Some_id)
    show ?thesis
    proof (cases "archive_offered userRole it")
      case False
      with Archive Some assms show ?thesis by (simp add: archive_click_def)
    next
      case True
      then have nu: "status it \<noteq> Used" by (simp add: archive_offered_def)
      let ?c = "confirmArchive (Some it) userId reason w"
      have "?c = (fst ?c, snd ?c)" by simp
      from confirmArchive_used_iff_borrower[OF this assms _ nu] Some iid
      have "used_iff_borrower (snd ?c)" by simp
      with Archive Some True assms show ?thesis by (simp add: archive_click_def)
    qed
  qed
next
  case (Restore userRole userId i reason)
  show ?thesis
  proof (cases "listed_item w i")
    case None
    with Restore assms show ?thesis by simp
  next
    case (Some it)
    let ?c = "confirmUnarchive (Some it) userId reason w"
    have "?c = (fst ?c, snd ?c)" by simp
    from confirmUnarchive_used_iff_borrower[OF this assms]
    have "used_iff_borrower (snd ?c)" .
    with Restore Some assms show ?thesis by (simp add: restore_click_def)
  qed
qed

text \<open>
  Claim C9, as the code has it. Whatever backend calls fail, every sequence of the
  operations as the pages and the services run them (creating an item, submitting a
  request through \<open>createRequest\<close> or the borrow/return button, approving, rejecting,
  archiving through the Archive button of the item as stored, restoring) keeps every
  item's status equal to used exactly when its \<open>last_used_by\<close> is set.
\<close>

theorem used_iff_borrower_invariant:
  "used_iff_borrower w \<Longrightarrow> used_iff_borrower (run ops w)"
  by (induction ops arbitrary: w) (simp_all add: step_used_iff_borrower)

theorem used_iff_borrower_invariant_witness:
  "used_iff_borrower empty_store
   \<and> map status (items drill_in_use) = [Used]
   \<and> map last_used_by (items drill_in_use) = [Some 2]
   \<and> used_iff_borrower drill_in_use"
proof -
  have e: "used_iff_borrower empty_store"
    by (simp add: used_iff_borrower_def empty_store_def)
  have s: "map status (items drill_in_use) = [Used]"
    "map last_used_by (items drill_in_use) = [Some 2]"
    by (simp_all add: page_defs service_defs example_defs)
  from used_iff_borrower_invariant[OF e,
      of "[Create_item (Some 1) drill_form, Borrow_or_return (Some 2) 10, Approve 12 1]"]
  have "used_iff_borrower drill_in_use" by (simp only: drill_in_use_def)
  with e s show ?thesis by blast
qed

text \<open>
  Claim C9 as stated fails when archive is \<open>confirmArchive\<close> itself, which does not
  look at the status: called for the drill in use by budi it completes and leaves the
  item archived with \<open>last_used_by\<close> still set. The Archive button does the same when
  the page still lists the drill as available.
\<close>

theorem archive_breaks_used_iff_borrower_counterexample:
  "map status (items drill_in_use) = [Used]
   \<and> fst (confirmArchive (Some (drill\<lparr>status := Used, last_used_by := Some 2\<rparr>)) (Some 1)
            ''lost'' drill_in_use) = Inr ()
   \<and> map status (items (snd (confirmArchive
          (Some (drill\<lparr>status := Used, last_used_by := Some 2\<rparr>)) (Some 1)
          ''lost'' drill_in_use))) = [Archived]
   \<and> map last_used_by (items (snd (confirmArchive
          (Some (drill\<lparr>status := Used, last_used_by := Some 2\<rparr>)) (Some 1)
          ''lost'' drill_in_use))) = [Some 2]
   \<and> \<not> used_iff_borrower (snd (confirmArchive
          (Some (drill\<lparr>status := Used, last_used_by := Some 2\<rparr>)) (Some 1)
          ''lost'' drill_in_use))
   \<and> \<not> used_iff_borrower (snd (archive_click (Some Admin) (Some 1) drill ''lost''
          drill_in_use))"
  by (simp add: used_iff_borrower_def page_defs service_defs example_defs)

subsection \<open>One request per item, requester and type\<close>
























end
